theory Spec2Isabelle
  imports Main "HOL-Library.Word"
begin

section \<open>GasTag bridge firmware: types shared by both translation units\<close>

text \<open>
  The firmware consists of \<^verbatim>\<open>main.c\<close> (USB line framer, watchdog, BLE attribute server,
  mode coordinator) and \<^verbatim>\<open>ota_update.c\<close> (WiFi access point and HTTP firmware upload).
  Every C global becomes a field of a record that is passed in and returned; every call
  into ESP-IDF or FreeRTOS that has an outside effect is logged as a value of \<open>call\<close>,
  in program order, and every result that ESP-IDF hands back is an input of the model.
\<close>

type_synonym byte = "8 word"
type_synonym u16 = "16 word"
type_synonym u32 = "32 word"

text \<open>\<^verbatim>\<open>esp_err_t\<close> is an \<^verbatim>\<open>int\<close>; \<^verbatim>\<open>ESP_OK\<close> is 0 and \<^verbatim>\<open>ESP_FAIL\<close> is -1.\<close>

type_synonym esp_err_t = int

definition ESP_OK :: esp_err_t where
  "ESP_OK = 0"

definition ESP_FAIL :: esp_err_t where
  "ESP_FAIL = - 1"

text \<open>
  Constants and macros that the sources use and that ESP-IDF or the FreeRTOS configuration
  defines. They are parameters of the model.
\<close>

record platform =
  portTICK_PERIOD_MS :: u32           \<comment> \<open>milliseconds per tick\<close>
  OTA_TIMEOUT_TICKS :: u32            \<comment> \<open>\<^verbatim>\<open>pdMS_TO_TICKS(5 * 60 * 1000)\<close>\<close>
  image_header_size :: nat            \<comment> \<open>\<^verbatim>\<open>sizeof(esp_image_header_t)\<close>\<close>
  ESP_IMAGE_HEADER_MAGIC :: byte
  ESP_GATT_IF_NONE :: u16
  ESP_ERR_INVALID_STATE :: esp_err_t
  ESP_ERR_OTA_VALIDATE_FAILED :: esp_err_t

text \<open>The values of ESP-IDF 5 on an ESP32-S3 with a 1 kHz tick, used for concrete runs.\<close>

definition esp32s3 :: platform where
  "esp32s3 = \<lparr> portTICK_PERIOD_MS = 1, OTA_TIMEOUT_TICKS = 300000,
     image_header_size = 24, ESP_IMAGE_HEADER_MAGIC = 0xE9, ESP_GATT_IF_NONE = 0xFF,
     ESP_ERR_INVALID_STATE = 0x103, ESP_ERR_OTA_VALIDATE_FAILED = 0x1503 \<rparr>"

subsection \<open>ota_update.h\<close>

datatype ota_state_t =
    OTA_STATE_IDLE
  | OTA_STATE_WIFI_STARTING
  | OTA_STATE_WIFI_READY
  | OTA_STATE_UPDATING
  | OTA_STATE_VALIDATING
  | OTA_STATE_SUCCESS
  | OTA_STATE_FAILED

definition OTA_CHUNK_SIZE :: int where
  "OTA_CHUNK_SIZE = 4096"

definition OTA_ERR_WIFI_INIT :: u32 where
  "OTA_ERR_WIFI_INIT = 0x1001"

definition OTA_ERR_WIFI_START :: u32 where
  "OTA_ERR_WIFI_START = 0x1002"

definition OTA_ERR_HTTP_INIT :: u32 where
  "OTA_ERR_HTTP_INIT = 0x1003"

definition OTA_ERR_OTA_BEGIN :: u32 where
  "OTA_ERR_OTA_BEGIN = 0x1004"

definition OTA_ERR_OTA_WRITE :: u32 where
  "OTA_ERR_OTA_WRITE = 0x1005"

definition OTA_ERR_OTA_END :: u32 where
  "OTA_ERR_OTA_END = 0x1006"

definition OTA_ERR_VALIDATION :: u32 where
  "OTA_ERR_VALIDATION = 0x1007"

definition OTA_ERR_SET_BOOT :: u32 where
  "OTA_ERR_SET_BOOT = 0x1008"

definition OTA_ERR_TIMEOUT :: u32 where
  "OTA_ERR_TIMEOUT = 0x1009"

subsection \<open>Calls into the platform\<close>

text \<open>
  One constructor per platform function the modelled code calls, with the arguments that
  matter and, where the code branches on it, the result the platform gave. Log output is
  left out except for the line that \<^verbatim>\<open>handle_rx\<close> prints for each completed line.
\<close>

datatype http_status = HTTPD_400_BAD_REQUEST | HTTPD_500_INTERNAL_SERVER_ERROR

datatype call =
    esp_ble_gatts_send_indicate u16 u16 u16 "byte list"
      \<comment> \<open>interface, connection, attribute handle, the \<^verbatim>\<open>value_len\<close> bytes sent\<close>
  | ESP_LOGI_Data "byte list"          \<comment> \<open>\<^verbatim>\<open>ESP_LOGI(TAG, "Data: %s", line_buffer)\<close>\<close>
  | esp_ble_gatts_send_response u16 u16 u32   \<comment> \<open>interface, connection, transaction\<close>
  | esp_ble_gap_update_conn_params
  | esp_ble_gap_start_advertising
  | esp_ble_gap_stop_advertising
  | esp_bluedroid_disable
  | esp_bluedroid_deinit
  | esp_bt_controller_disable
  | esp_bt_controller_deinit
  | esp_netif_init esp_err_t
  | esp_event_loop_create_default esp_err_t
  | esp_netif_create_default_wifi_ap
  | esp_wifi_init esp_err_t
  | esp_event_handler_instance_register esp_err_t
  | esp_wifi_set_mode esp_err_t
  | esp_wifi_set_config esp_err_t
  | esp_wifi_start esp_err_t
  | esp_wifi_stop
  | esp_wifi_deinit
  | httpd_start esp_err_t
  | httpd_register_uri_handler string
  | httpd_stop
  | esp_ota_get_next_update_partition
  | esp_ota_begin esp_err_t
  | esp_ota_write nat "byte list" esp_err_t
      \<comment> \<open>bytes already written in this session, the chunk, the result\<close>
  | esp_ota_abort
  | esp_ota_end esp_err_t
  | esp_ota_set_boot_partition "nat option" esp_err_t   \<comment> \<open>the partition, the result\<close>
  | httpd_resp_send_err http_status string
  | httpd_resp_send string             \<comment> \<open>the \<^verbatim>\<open>message\<close> of the JSON success body\<close>
  | vTaskDelay_ms nat                  \<comment> \<open>\<^verbatim>\<open>vTaskDelay(pdMS_TO_TICKS(ms))\<close>\<close>
  | esp_restart

section \<open>main.c\<close>

subsection \<open>Globals\<close>

text \<open>
  \<open>line_buffer\<close> and \<open>last_reading\<close> are the 256-byte arrays; \<open>line_buffer_pos\<close> is a
  C \<^verbatim>\<open>int\<close> that the code keeps between 0 and 255. The USB detection globals
  (\<^verbatim>\<open>detected_vid\<close>, \<^verbatim>\<open>detected_pid\<close>, \<^verbatim>\<open>device_available\<close>) and the advertising
  flags belong to functions that are not modelled.
\<close>

record main_globals =
  gatts_if :: u16
  conn_id :: u16
  device_connected :: bool
  char_handle :: u16
  version_char_handle :: u16
  ota_char_handle :: u16
  service_handle :: u16
  ota_mode_requested :: bool
  last_reading :: "byte list"
  line_buffer :: "byte list"
  line_buffer_pos :: nat
  last_data_time_ms :: u32

text \<open>The static initialisers, with \<open>ESP_GATT_IF_NONE\<close> taken from the platform.\<close>

definition main_init :: "platform \<Rightarrow> main_globals" where
  "main_init P = \<lparr> gatts_if = ESP_GATT_IF_NONE P, conn_id = 0, device_connected = False,
     char_handle = 0, version_char_handle = 0, ota_char_handle = 0, service_handle = 0,
     ota_mode_requested = False, last_reading = replicate 256 0,
     line_buffer = replicate 256 0, line_buffer_pos = 0, last_data_time_ms = 0 \<rparr>"

subsection \<open>gatts_event_handler\<close>

text \<open>
  The fields of \<^verbatim>\<open>param->write\<close> that the handler reads. \<^verbatim>\<open>write.len\<close> is the length
  of \<open>w_value\<close>.
\<close>

record gatts_write_evt_param =
  w_conn_id :: u16
  w_trans_id :: u32
  w_handle :: u16
  w_need_rsp :: bool
  w_value :: "byte list"

text \<open>
  The runtime events. The bring-up events (\<^verbatim>\<open>REG\<close>, \<^verbatim>\<open>CREATE\<close>, \<^verbatim>\<open>ADD_CHAR\<close>,
  \<^verbatim>\<open>ADD_CHAR_DESCR\<close>) and \<^verbatim>\<open>READ\<close> are not modelled; \<open>ESP_GATTS_OTHER_EVT\<close> stands
  for the \<^verbatim>\<open>default\<close> branch.
\<close>

datatype gatts_event =
    ESP_GATTS_CONNECT_EVT u16
  | ESP_GATTS_MTU_EVT
  | ESP_GATTS_WRITE_EVT gatts_write_evt_param
  | ESP_GATTS_DISCONNECT_EVT
  | ESP_GATTS_OTHER_EVT

fun gatts_event_handler :: "main_globals \<Rightarrow> u16 \<Rightarrow> gatts_event \<Rightarrow> main_globals \<times> call list" where
  "gatts_event_handler s gatt_if (ESP_GATTS_CONNECT_EVT cid) =
     (s\<lparr>conn_id := cid, device_connected := True\<rparr>, [esp_ble_gap_update_conn_params])"
| "gatts_event_handler s gatt_if ESP_GATTS_MTU_EVT = (s, [])"
| "gatts_event_handler s gatt_if (ESP_GATTS_WRITE_EVT w) =
     (let s1 =
        (if w_handle w = ota_char_handle s \<and> length (w_value w) \<ge> 1 then
           (let command = hd (w_value w) in
            if command = 0x01 then s\<lparr>ota_mode_requested := True\<rparr> else s)
         else s)
      in (s1,
          if w_need_rsp w
          then [esp_ble_gatts_send_response gatt_if (w_conn_id w) (w_trans_id w)]
          else []))"
| "gatts_event_handler s gatt_if ESP_GATTS_DISCONNECT_EVT =
     (s\<lparr>device_connected := False\<rparr>, [esp_ble_gap_start_advertising])"
| "gatts_event_handler s gatt_if ESP_GATTS_OTHER_EVT = (s, [])"

subsection \<open>handle_rx\<close>

text \<open>
  A C string stored in an array is the bytes before the first NUL. \<^verbatim>\<open>strncpy(dst, src, n)\<close>
  copies the string in the first \<open>n\<close> bytes of \<open>src\<close> and fills up to \<open>n\<close> bytes with NUL;
  the bytes of \<open>dst\<close> from index \<open>n\<close> on stay.
\<close>

definition cstr :: "byte list \<Rightarrow> byte list" where
  "cstr a = takeWhile (\<lambda>b. b \<noteq> 0) a"

definition strncpy :: "byte list \<Rightarrow> byte list \<Rightarrow> nat \<Rightarrow> byte list" where
  "strncpy dst src n =
     (let t = cstr (take n src) in t @ replicate (n - length t) 0 @ drop n dst)"

text \<open>
  The body of the \<^verbatim>\<open>for\<close> loop for one byte \<open>c\<close>. The test \<^verbatim>\<open>c >= 32 && c < 127\<close> accepts
  the same bytes whether \<^verbatim>\<open>char\<close> is signed or unsigned: a byte from 128 on fails the first
  comparison when signed and the second when unsigned.
\<close>

definition rx_byte :: "platform \<Rightarrow> main_globals \<Rightarrow> byte \<Rightarrow> main_globals \<times> call list" where
  "rx_byte P s c =
     (if c = 10 \<or> c = 13 then
        (if line_buffer_pos s > 0 then
           (let lb = (line_buffer s)[line_buffer_pos s := 0];
                lr = (strncpy (last_reading s) lb 255)[255 := 0];
                ind = (if device_connected s \<and> gatts_if s \<noteq> ESP_GATT_IF_NONE P \<and> char_handle s \<noteq> 0
                       then [esp_ble_gatts_send_indicate (gatts_if s) (conn_id s) (char_handle s)
                               (take (line_buffer_pos s) lb)]
                       else [])
            in (s\<lparr>last_reading := lr, line_buffer := lb[0 := 0], line_buffer_pos := 0\<rparr>,
                ind @ [ESP_LOGI_Data (cstr lb)]))
         else (s, []))
      else if 32 \<le> c \<and> c < 127 then
        (if line_buffer_pos s < 255
         then (s\<lparr>line_buffer := (line_buffer s)[line_buffer_pos s := c],
                  line_buffer_pos := line_buffer_pos s + 1\<rparr>, [])
         else (s, []))
      else (s, []))"

fun handle_rx_loop :: "platform \<Rightarrow> main_globals \<Rightarrow> byte list \<Rightarrow> main_globals \<times> call list" where
  "handle_rx_loop P s [] = (s, [])"
| "handle_rx_loop P s (c # cs) =
     (let (s1, e1) = rx_byte P s c; (s2, e2) = handle_rx_loop P s1 cs in (s2, e1 @ e2))"

text \<open>
  \<open>now\<close> is what \<^verbatim>\<open>xTaskGetTickCount()\<close> returns when the callback runs. The function
  always returns \<^verbatim>\<open>true\<close>, which is left out.
\<close>

definition handle_rx :: "platform \<Rightarrow> main_globals \<Rightarrow> u32 \<Rightarrow> byte list \<Rightarrow> main_globals \<times> call list" where
  "handle_rx P s now data =
     handle_rx_loop P (s\<lparr>last_data_time_ms := now * portTICK_PERIOD_MS P\<rparr>) data"

subsection \<open>The line framer as the specification words it\<close>

text \<open>
  The text waiting in the buffer, the line events among the calls made (one line is
  printed per event), and the invariant of the buffer: the array has its 256 bytes, the
  position leaves room for the terminator, and no NUL is stored before the position.
\<close>

definition pending :: "main_globals \<Rightarrow> byte list" where
  "pending s = take (line_buffer_pos s) (line_buffer s)"

fun line_events :: "call list \<Rightarrow> byte list list" where
  "line_events [] = []"
| "line_events (ESP_LOGI_Data t # es) = t # line_events es"
| "line_events (e # es) = line_events es"

definition line_buffer_ok :: "main_globals \<Rightarrow> bool" where
  "line_buffer_ok s \<longleftrightarrow>
     length (line_buffer s) = 256 \<and> line_buffer_pos s \<le> 255 \<and> 0 \<notin> set (pending s)"

text \<open>
  The framer in the words of the specification, on the pending text alone: printable
  bytes (32 to 126) are appended while fewer than 255 are buffered and dropped otherwise,
  a CR or LF emits the pending text when there is some and empties the buffer, and every
  other byte is ignored. The result is the lines emitted and the text left pending.
\<close>

fun spec_framer :: "byte list \<Rightarrow> byte list \<Rightarrow> byte list list \<times> byte list" where
  "spec_framer buf [] = ([], buf)"
| "spec_framer buf (c # cs) =
     (if c = 10 \<or> c = 13 then
        (if buf \<noteq> [] then (let (ls, b) = spec_framer [] cs in (buf # ls, b))
         else spec_framer buf cs)
      else if 32 \<le> c \<and> c \<le> 126 then
        spec_framer (if length buf < 255 then buf @ [c] else buf) cs
      else spec_framer buf cs)"

section \<open>ota_update.c\<close>

subsection \<open>Globals\<close>

text \<open>
  \<^verbatim>\<open>size_t\<close> and \<^verbatim>\<open>uint32_t\<close> are 32-bit words and \<^verbatim>\<open>int\<close> is a 32-bit two's complement
  integer on this target. \<open>http_server\<close> and \<open>ap_netif\<close> say whether the pointer is
  non-NULL; \<open>update_partition\<close> is \<open>None\<close> for NULL.
\<close>

record ota_globals =
  current_state :: ota_state_t
  update_progress :: int
  last_error :: u32
  http_server :: bool
  ap_netif :: bool
  wifi_initialized :: bool
  ota_handle :: u32
  update_partition :: "nat option"
  total_size :: u32
  received_size :: u32

definition ota_boot :: ota_globals where
  "ota_boot = \<lparr> current_state = OTA_STATE_IDLE, update_progress = - 1, last_error = 0,
     http_server = False, ap_netif = False, wifi_initialized = False, ota_handle = 0,
     update_partition = None, total_size = 0, received_size = 0 \<rparr>"

text \<open>
  How a modelled function ends: it returns an \<^verbatim>\<open>esp_err_t\<close>; it restarts the device
  (\<^verbatim>\<open>esp_restart\<close> does not return); an \<^verbatim>\<open>ESP_ERROR_CHECK\<close> aborts; or it is still
  blocked in a receive call when the inputs that are given end.
\<close>

datatype outcome = Returned esp_err_t | Restarted | Aborted | Blocked

text \<open>The calls made so far, followed by how the rest of the function goes.\<close>

definition calls_then :: "call list \<Rightarrow> 'a \<times> 'b \<times> call list \<Rightarrow> 'a \<times> 'b \<times> call list" where
  "calls_then cs r = (fst r, fst (snd r), cs @ snd (snd r))"

subsection \<open>update_post_handler\<close>

text \<open>
  What one call of \<^verbatim>\<open>httpd_req_recv\<close> gives: the bytes read (the call keeps at most the
  number of bytes asked for; no bytes is the return value 0, the connection was closed),
  \<^verbatim>\<open>HTTPD_SOCK_ERR_TIMEOUT\<close>, or another negative error code.
\<close>

datatype recv_result = RecvData "byte list" | RecvTimeout | RecvError

text \<open>
  The platform's answers during one request. \<open>ota_write_result\<close> gives the result of
  \<^verbatim>\<open>esp_ota_write\<close> from the number of bytes written before it in the session.
\<close>

record upload_env =
  next_update_partition :: "nat option"
  ota_begin_result :: esp_err_t
  ota_begin_handle :: u32
  malloc_ok :: bool
  recv_script :: "recv_result list"
  ota_write_result :: "nat \<Rightarrow> esp_err_t"
  ota_end_result :: esp_err_t
  set_boot_result :: esp_err_t

record httpd_req = content_len :: u32

definition failed :: "ota_globals \<Rightarrow> u32 \<Rightarrow> ota_globals" where
  "failed s e = s\<lparr>last_error := e, current_state := OTA_STATE_FAILED\<rparr>"

text \<open>From \<^verbatim>\<open>current_state = OTA_STATE_VALIDATING\<close> to the end of the handler.\<close>

definition finalize :: "platform \<Rightarrow> upload_env \<Rightarrow> ota_globals \<Rightarrow> outcome \<times> ota_globals \<times> call list" where
  "finalize P E s =
     (let s1 = s\<lparr>current_state := OTA_STATE_VALIDATING\<rparr>;
          err = ota_end_result E
      in if err \<noteq> ESP_OK then
           (Returned ESP_FAIL, failed s1 OTA_ERR_OTA_END,
            [esp_ota_end err,
             if err = ESP_ERR_OTA_VALIDATE_FAILED P
             then httpd_resp_send_err HTTPD_400_BAD_REQUEST ''Firmware validation failed''
             else httpd_resp_send_err HTTPD_500_INTERNAL_SERVER_ERROR ''OTA finalize failed''])
         else
           (let err2 = set_boot_result E
            in if err2 \<noteq> ESP_OK then
                 (Returned ESP_FAIL, failed s1 OTA_ERR_SET_BOOT,
                  [esp_ota_end err, esp_ota_set_boot_partition (update_partition s1) err2,
                   httpd_resp_send_err HTTPD_500_INTERNAL_SERVER_ERROR
                     ''Set boot partition failed''])
               else
                 (Restarted, s1\<lparr>current_state := OTA_STATE_SUCCESS, update_progress := 100\<rparr>,
                  [esp_ota_end err, esp_ota_set_boot_partition (update_partition s1) err2,
                   httpd_resp_send ''Update complete, rebooting...'',
                   vTaskDelay_ms 2000, esp_restart])))"

text \<open>
  The \<^verbatim>\<open>while (remaining > 0)\<close> loop, with the locals \<open>remaining\<close> and \<open>first_chunk\<close>, over
  the results of the receive calls still to come; when the loop ends the handler goes
  on with \<open>finalize\<close>. The magic is the first byte of the header, which is the first byte
  of the buffer. \<^verbatim>\<open>recv_len < sizeof(esp_image_header_t)\<close> compares as unsigned; \<open>recv_len\<close>
  is positive there.
\<close>

fun rx_chunks ::
  "platform \<Rightarrow> upload_env \<Rightarrow> recv_result list \<Rightarrow> int \<Rightarrow> bool \<Rightarrow> ota_globals
     \<Rightarrow> outcome \<times> ota_globals \<times> call list" where
  "rx_chunks P E [] remaining first_chunk s =
     (if remaining > 0 then (Blocked, s, []) else finalize P E s)"
| "rx_chunks P E (r # rest) remaining first_chunk s =
     (if remaining > 0 then
        (case r of
           RecvTimeout \<Rightarrow> rx_chunks P E rest remaining first_chunk s
         | RecvError \<Rightarrow>
             (Returned ESP_FAIL, failed s OTA_ERR_OTA_WRITE,
              [esp_ota_abort,
               httpd_resp_send_err HTTPD_500_INTERNAL_SERVER_ERROR ''Receive error''])
         | RecvData bytes \<Rightarrow>
             (let buf = take (nat (min remaining OTA_CHUNK_SIZE)) bytes;
                  recv_len = int (length buf)
              in if recv_len \<le> 0 then
                   (Returned ESP_FAIL, failed s OTA_ERR_OTA_WRITE,
                    [esp_ota_abort,
                     httpd_resp_send_err HTTPD_500_INTERNAL_SERVER_ERROR ''Receive error''])
                 else if first_chunk \<and> nat recv_len < image_header_size P then
                   (Returned ESP_FAIL, failed s OTA_ERR_VALIDATION,
                    [esp_ota_abort,
                     httpd_resp_send_err HTTPD_400_BAD_REQUEST ''Invalid firmware''])
                 else if first_chunk \<and> hd buf \<noteq> ESP_IMAGE_HEADER_MAGIC P then
                   (Returned ESP_FAIL, failed s OTA_ERR_VALIDATION,
                    [esp_ota_abort,
                     httpd_resp_send_err HTTPD_400_BAD_REQUEST ''Invalid firmware header''])
                 else
                   (let err = ota_write_result E (unat (received_size s))
                    in if err \<noteq> ESP_OK then
                         (Returned ESP_FAIL, failed s OTA_ERR_OTA_WRITE,
                          [esp_ota_write (unat (received_size s)) buf err, esp_ota_abort,
                           httpd_resp_send_err HTTPD_500_INTERNAL_SERVER_ERROR ''Write error''])
                       else
                         (let received = received_size s + word_of_int recv_len;
                              s1 = s\<lparr>received_size := received,
                                     update_progress := sint ((received * 100) div total_size s)\<rparr>
                          in calls_then [esp_ota_write (unat (received_size s)) buf err]
                               (rx_chunks P E rest (remaining - recv_len) False s1)))))
      else finalize P E s)"

definition update_post_handler ::
  "platform \<Rightarrow> upload_env \<Rightarrow> httpd_req \<Rightarrow> ota_globals \<Rightarrow> outcome \<times> ota_globals \<times> call list" where
  "update_post_handler P E req s =
     (if content_len req = 0 then
        (Returned ESP_FAIL, s, [httpd_resp_send_err HTTPD_400_BAD_REQUEST ''No firmware data''])
      else
        (let s1 = s\<lparr>current_state := OTA_STATE_UPDATING, total_size := content_len req,
                     received_size := 0, update_progress := 0,
                     update_partition := next_update_partition E\<rparr>
         in if update_partition s1 = None then
              (Returned ESP_FAIL, failed s1 OTA_ERR_OTA_BEGIN,
               [esp_ota_get_next_update_partition,
                httpd_resp_send_err HTTPD_500_INTERNAL_SERVER_ERROR ''No OTA partition''])
            else if ota_begin_result E \<noteq> ESP_OK then
              (Returned ESP_FAIL, failed s1 OTA_ERR_OTA_BEGIN,
               [esp_ota_get_next_update_partition, esp_ota_begin (ota_begin_result E),
                httpd_resp_send_err HTTPD_500_INTERNAL_SERVER_ERROR ''OTA begin failed''])
            else
              (let s2 = s1\<lparr>ota_handle := ota_begin_handle E\<rparr>
               in if \<not> malloc_ok E then
                    (Returned ESP_FAIL, failed s2 OTA_ERR_OTA_WRITE,
                     [esp_ota_get_next_update_partition, esp_ota_begin (ota_begin_result E),
                      esp_ota_abort,
                      httpd_resp_send_err HTTPD_500_INTERNAL_SERVER_ERROR
                        ''Memory allocation failed''])
                  else
                    calls_then
                      [esp_ota_get_next_update_partition, esp_ota_begin (ota_begin_result E)]
                      (rx_chunks P E (recv_script E) (sint (content_len req)) True s2))))"

subsection \<open>Access point, HTTP server and the public API\<close>

text \<open>The platform's answers while the network is brought up.\<close>

record net_env =
  netif_init_result :: esp_err_t
  event_loop_result :: esp_err_t
  netif_created :: bool               \<comment> \<open>\<^verbatim>\<open>esp_netif_create_default_wifi_ap\<close> gave a non-NULL pointer\<close>
  wifi_init_result :: esp_err_t
  handler_register_result :: esp_err_t
  set_mode_result :: esp_err_t
  set_config_result :: esp_err_t
  wifi_start_result :: esp_err_t
  httpd_start_result :: esp_err_t

definition start_wifi_ap :: "platform \<Rightarrow> net_env \<Rightarrow> ota_globals \<Rightarrow> outcome \<times> ota_globals \<times> call list" where
  "start_wifi_ap P N s =
     (let s0 = s\<lparr>current_state := OTA_STATE_WIFI_STARTING\<rparr>
      in if \<not> wifi_initialized s0 \<and> netif_init_result N \<noteq> ESP_OK
              \<and> netif_init_result N \<noteq> ESP_ERR_INVALID_STATE P then
           (Returned (netif_init_result N), s0, [esp_netif_init (netif_init_result N)])
         else if \<not> wifi_initialized s0 \<and> event_loop_result N \<noteq> ESP_OK
              \<and> event_loop_result N \<noteq> ESP_ERR_INVALID_STATE P then
           (Returned (event_loop_result N), s0,
            [esp_netif_init (netif_init_result N),
             esp_event_loop_create_default (event_loop_result N)])
         else
           (let c1 = (if wifi_initialized s0 then []
                      else [esp_netif_init (netif_init_result N),
                            esp_event_loop_create_default (event_loop_result N)]);
                s1 = s0\<lparr>wifi_initialized := True\<rparr>;
                c2 = (if ap_netif s1 then [] else [esp_netif_create_default_wifi_ap]);
                s2 = (if ap_netif s1 then s1 else s1\<lparr>ap_netif := netif_created N\<rparr>);
                c3 = c1 @ c2 @ [esp_wifi_init (wifi_init_result N)]
            in if wifi_init_result N \<noteq> ESP_OK then
                 (Returned (wifi_init_result N), failed s2 OTA_ERR_WIFI_INIT, c3)
               else if handler_register_result N \<noteq> ESP_OK then
                 (Aborted, s2, c3 @ [esp_event_handler_instance_register (handler_register_result N)])
               else if set_mode_result N \<noteq> ESP_OK then
                 (Aborted, s2,
                  c3 @ [esp_event_handler_instance_register (handler_register_result N),
                        esp_wifi_set_mode (set_mode_result N)])
               else if set_config_result N \<noteq> ESP_OK then
                 (Aborted, s2,
                  c3 @ [esp_event_handler_instance_register (handler_register_result N),
                        esp_wifi_set_mode (set_mode_result N),
                        esp_wifi_set_config (set_config_result N)])
               else
                 (let c4 = c3 @ [esp_event_handler_instance_register (handler_register_result N),
                                 esp_wifi_set_mode (set_mode_result N),
                                 esp_wifi_set_config (set_config_result N),
                                 esp_wifi_start (wifi_start_result N)]
                  in if wifi_start_result N \<noteq> ESP_OK then
                       (Returned (wifi_start_result N), failed s2 OTA_ERR_WIFI_START, c4)
                     else (Returned ESP_OK, s2\<lparr>current_state := OTA_STATE_WIFI_READY\<rparr>, c4))))"

definition start_http_server :: "net_env \<Rightarrow> ota_globals \<Rightarrow> outcome \<times> ota_globals \<times> call list" where
  "start_http_server N s =
     (if httpd_start_result N \<noteq> ESP_OK then
        (Returned (httpd_start_result N), s, [httpd_start (httpd_start_result N)])
      else
        (Returned ESP_OK, s\<lparr>http_server := True\<rparr>,
         [httpd_start (httpd_start_result N), httpd_register_uri_handler ''/'',
          httpd_register_uri_handler ''/update'']))"

definition stop_http_server :: "ota_globals \<Rightarrow> ota_globals \<times> call list" where
  "stop_http_server s =
     (if http_server s then (s\<lparr>http_server := False\<rparr>, [httpd_stop]) else (s, []))"

definition stop_wifi_ap :: "call list" where
  "stop_wifi_ap = [esp_wifi_stop, esp_wifi_deinit]"

definition ota_init :: "ota_globals \<Rightarrow> ota_globals" where
  "ota_init s = s\<lparr>current_state := OTA_STATE_IDLE, update_progress := - 1, last_error := 0\<rparr>"

definition ota_start_update_mode ::
  "platform \<Rightarrow> net_env \<Rightarrow> ota_globals \<Rightarrow> outcome \<times> ota_globals \<times> call list" where
  "ota_start_update_mode P N s =
     (let r1 = start_wifi_ap P N s
      in if fst r1 \<noteq> Returned ESP_OK then r1
         else
           (let r2 = start_http_server N (fst (snd r1))
            in if fst r2 \<noteq> Returned ESP_OK then
                 (fst r2, failed (fst (snd r2)) OTA_ERR_HTTP_INIT,
                  snd (snd r1) @ snd (snd r2) @ stop_wifi_ap)
               else (Returned ESP_OK, fst (snd r2), snd (snd r1) @ snd (snd r2))))"

definition ota_stop_update_mode :: "ota_globals \<Rightarrow> ota_globals \<times> call list" where
  "ota_stop_update_mode s =
     (let r = stop_http_server s
      in ((fst r)\<lparr>current_state := OTA_STATE_IDLE, update_progress := - 1\<rparr>,
          snd r @ stop_wifi_ap))"

definition ota_get_state :: "ota_globals \<Rightarrow> ota_state_t" where
  "ota_get_state s = current_state s"

definition ota_get_progress :: "ota_globals \<Rightarrow> int" where
  "ota_get_progress s = update_progress s"

definition ota_get_last_error :: "ota_globals \<Rightarrow> u32" where
  "ota_get_last_error s = last_error s"

text \<open>A network bring-up in which every platform call succeeds, and the state it leads to.\<close>

definition net_ok :: net_env where
  "net_ok = \<lparr> netif_init_result = ESP_OK, event_loop_result = ESP_OK, netif_created = True,
     wifi_init_result = ESP_OK, handler_register_result = ESP_OK, set_mode_result = ESP_OK,
     set_config_result = ESP_OK, wifi_start_result = ESP_OK, httpd_start_result = ESP_OK \<rparr>"

definition ota_ready :: ota_globals where
  "ota_ready = fst (snd (ota_start_update_mode esp32s3 net_ok (ota_init ota_boot)))"

text \<open>
  An upload in which the platform finds partition 1 and every platform call succeeds;
  the receive calls give \<open>script\<close>.
\<close>

definition upload_env_ok :: "recv_result list \<Rightarrow> upload_env" where
  "upload_env_ok script = \<lparr> next_update_partition = Some 1, ota_begin_result = ESP_OK,
     ota_begin_handle = 1, malloc_ok = True, recv_script = script,
     ota_write_result = (\<lambda>_. ESP_OK), ota_end_result = ESP_OK, set_boot_result = ESP_OK \<rparr>"

section \<open>main.c: the mode coordinator and the watchdog\<close>

subsection \<open>app_main\<close>

text \<open>
  What the coordinator sees while it waits: at each pass of the wait loop the OTA globals
  as the HTTP server task has left them (both reads of the state in the loop condition,
  and the read after the loop, see the same globals), and the tick count.
  \<open>ota_start_time\<close> is the tick count read before the loop.
\<close>

record coord_env =
  net :: net_env
  ota_start_time :: u32
  polls :: "(ota_globals \<times> u32) list"

text \<open>
  A loop goes on to its next pass, the device restarts, or the wait loop is still
  running when the observations that are given end.
\<close>

datatype loop_end = NextIteration | DeviceRestart | StillWaiting

text \<open>
  The \<^verbatim>\<open>while (ota_get_state() != SUCCESS && ota_get_state() != FAILED)\<close> loop and the
  \<^verbatim>\<open>if\<close> after it. The last argument is the OTA globals as last seen.
\<close>

fun ota_wait ::
  "platform \<Rightarrow> u32 \<Rightarrow> (ota_globals \<times> u32) list \<Rightarrow> ota_globals \<Rightarrow> loop_end \<times> ota_globals \<times> call list" where
  "ota_wait P t0 [] g = (StillWaiting, g, [])"
| "ota_wait P t0 ((g1, now) # rest) g =
     (if ota_get_state g1 \<noteq> OTA_STATE_SUCCESS \<and> ota_get_state g1 \<noteq> OTA_STATE_FAILED then
        (if now - t0 > OTA_TIMEOUT_TICKS P then
           (DeviceRestart, fst (ota_stop_update_mode g1),
            snd (ota_stop_update_mode g1) @ [vTaskDelay_ms 1000, esp_restart])
         else calls_then [vTaskDelay_ms 1000] (ota_wait P t0 rest g1))
      else if ota_get_state g1 = OTA_STATE_FAILED then
        (DeviceRestart, g1, [vTaskDelay_ms 1000, esp_restart])
      else (NextIteration, g1, []))"

text \<open>One pass of the \<^verbatim>\<open>while (1)\<close> loop of \<^verbatim>\<open>app_main\<close>.\<close>

definition app_main_iter ::
  "platform \<Rightarrow> coord_env \<Rightarrow> main_globals \<times> ota_globals
     \<Rightarrow> loop_end \<times> (main_globals \<times> ota_globals) \<times> call list" where
  "app_main_iter P C st =
     (if ota_mode_requested (fst st) then
        (let m1 = (fst st)\<lparr>ota_mode_requested := False\<rparr>;
             ble = [esp_ble_gap_stop_advertising, esp_bluedroid_disable, esp_bluedroid_deinit,
                    esp_bt_controller_disable, esp_bt_controller_deinit];
             r = ota_start_update_mode P (net C) (snd st)
         in if fst r = Aborted then
              (DeviceRestart, (m1, fst (snd r)), ble @ snd (snd r))
            else if fst r \<noteq> Returned ESP_OK then
              (DeviceRestart, (m1, fst (snd r)),
               ble @ snd (snd r) @ [vTaskDelay_ms 1000, esp_restart])
            else
              (let w = ota_wait P (ota_start_time C) (polls C) (fst (snd r))
               in (fst w, (m1, fst (snd w)),
                   ble @ snd (snd r) @ snd (snd w)
                     @ (if fst w = NextIteration then [vTaskDelay_ms 100] else []))))
      else (NextIteration, st, [vTaskDelay_ms 100]))"

text \<open>The passes of the loop for which observations are given, until the device restarts.\<close>

fun app_main_loop ::
  "platform \<Rightarrow> coord_env list \<Rightarrow> main_globals \<times> ota_globals
     \<Rightarrow> loop_end \<times> (main_globals \<times> ota_globals) \<times> call list" where
  "app_main_loop P [] st = (NextIteration, st, [])"
| "app_main_loop P (C # Cs) st =
     (let r = app_main_iter P C st
      in if fst r = NextIteration
         then calls_then (snd (snd r)) (app_main_loop P Cs (fst (snd r)))
         else r)"

text \<open>A mode switch begins with the call that stops advertising.\<close>

definition mode_switches :: "call list \<Rightarrow> nat" where
  "mode_switches cs = count_list cs esp_ble_gap_stop_advertising"

subsection \<open>usb_host_task: the wait for disconnection\<close>

definition DATA_TIMEOUT_MS :: u32 where
  "DATA_TIMEOUT_MS = 5000"

text \<open>
  One pass of the \<^verbatim>\<open>while (device_active)\<close> loop as the task sees it: the calls of
  \<open>handle_rx\<close> that the driver task made since the pass before and until this task
  reads \<^verbatim>\<open>last_data_time_ms\<close> (tick count and data of each), whether the semaphore was
  taken, and the tick count read for the watchdog check. The task reads the tick count
  first and \<^verbatim>\<open>last_data_time_ms\<close> second, and the driver task runs on the other core, so
  a callback can fall between the two reads and carry a tick count later than
  \<open>tick_now\<close>.
\<close>

record wd_poll =
  rx_during :: "(u32 \<times> byte list) list"
  sem_taken :: bool
  tick_now :: u32

datatype session_end = DisconnectEvent | WatchdogExpired u32 | StillActive

fun device_active_loop :: "platform \<Rightarrow> wd_poll list \<Rightarrow> main_globals \<Rightarrow> session_end \<times> main_globals" where
  "device_active_loop P [] s = (StillActive, s)"
| "device_active_loop P (p # ps) s =
     (let s1 = fold (\<lambda>(t, d) s'. fst (handle_rx P s' t d)) (rx_during p) s
      in if sem_taken p then (DisconnectEvent, s1)
         else
           (let now_ms = tick_now p * portTICK_PERIOD_MS P;
                elapsed = now_ms - last_data_time_ms s1
            in if elapsed > DATA_TIMEOUT_MS then (WatchdogExpired elapsed, s1)
               else device_active_loop P ps s1))"

text \<open>
  From the initialisation of the watchdog timestamp, after the device was opened at
  tick \<open>opened\<close>, to the end of the wait loop.
\<close>

definition usb_session :: "platform \<Rightarrow> u32 \<Rightarrow> wd_poll list \<Rightarrow> main_globals \<Rightarrow> session_end \<times> main_globals" where
  "usb_session P opened ps s =
     device_active_loop P ps (s\<lparr>last_data_time_ms := opened * portTICK_PERIOD_MS P\<rparr>)"

section \<open>Notions used in the statements\<close>

text \<open>The chunks handed to \<^verbatim>\<open>esp_ota_write\<close>, in order.\<close>

fun flash_writes :: "call list \<Rightarrow> byte list list" where
  "flash_writes [] = []"
| "flash_writes (esp_ota_write off buf err # cs) = buf # flash_writes cs"
| "flash_writes (c # cs) = flash_writes cs"

text \<open>
  The progress as the specification words it, on unbounded naturals, and as the 32-bit
  multiplication of the code gives it.
\<close>

definition exact_progress :: "nat \<Rightarrow> nat \<Rightarrow> int" where
  "exact_progress received tot = int ((received * 100) div tot)"

definition wrapped_progress :: "nat \<Rightarrow> nat \<Rightarrow> int" where
  "wrapped_progress received tot = int (((received * 100) mod 2 ^ 32) div tot)"

text \<open>
  Two invariants of the receive loop: the progress is the one computed from the byte
  counters, and the bytes received and the bytes remaining add up to the declared total.
\<close>

definition progress_ok :: "ota_globals \<Rightarrow> bool" where
  "progress_ok s \<longleftrightarrow> update_progress s = sint ((received_size s * 100) div total_size s)"

definition counted :: "int \<Rightarrow> ota_globals \<Rightarrow> bool" where
  "counted remaining s \<longleftrightarrow>
     uint (received_size s) \<le> uint (total_size s) \<and>
     (0 \<le> remaining \<longrightarrow> uint (received_size s) + remaining = uint (total_size s))"

text \<open>The upload has not reached a terminal state.\<close>

definition in_progress :: "ota_globals \<Rightarrow> bool" where
  "in_progress g \<longleftrightarrow> current_state g \<noteq> OTA_STATE_SUCCESS \<and> current_state g \<noteq> OTA_STATE_FAILED"

text \<open>
  A coordinator run on a 1 kHz tick in which the network comes up and no upload ever
  starts: the wait loop sees the ready pipeline at ticks 1000, 2000 and 301001, having
  started at tick 1000.
\<close>

definition coord_timeout :: coord_env where
  "coord_timeout = \<lparr> net = net_ok, ota_start_time = 1000,
      polls = [(ota_ready, 1000), (ota_ready, 2000), (ota_ready, 301001)] \<rparr>"

text \<open>
  The milliseconds without data that the check of pass \<open>p\<close> computes when the last
  data arrived in state \<open>s\<close>; and passes during which no data arrives and no disconnect
  event is signalled.
\<close>

definition silence_at :: "platform \<Rightarrow> main_globals \<Rightarrow> wd_poll \<Rightarrow> u32" where
  "silence_at P s p = tick_now p * portTICK_PERIOD_MS P - last_data_time_ms s"

definition quiet :: "wd_poll list \<Rightarrow> bool" where
  "quiet ps \<longleftrightarrow> (\<forall>p \<in> set ps. rx_during p = [] \<and> \<not> sem_taken p)"

text \<open>
  The timestamp that the callbacks of one pass leave in \<^verbatim>\<open>last_data_time_ms\<close>, from the
  tick counts of the callbacks alone, and the timestamp after a run of passes.
\<close>

definition last_stamp :: "platform \<Rightarrow> u32 \<Rightarrow> (u32 \<times> byte list) list \<Rightarrow> u32" where
  "last_stamp P L rxs = (if rxs = [] then L else fst (last rxs) * portTICK_PERIOD_MS P)"

fun stamp_after :: "platform \<Rightarrow> u32 \<Rightarrow> wd_poll list \<Rightarrow> u32" where
  "stamp_after P L [] = L"
| "stamp_after P L (p # ps) = stamp_after P (last_stamp P L (rx_during p)) ps"

section \<open>Control attribute writes\<close>

text \<open>
  C7. A write request on the Control attribute handle with a non-empty payload sets
  \<open>ota_mode_requested\<close> when the first payload byte is 0x01 and changes no global for any
  other first byte; the only call made is the response, and it is made exactly when the
  peer asked for one, whatever the command byte.
\<close>

theorem C7_control_write_nonempty:
  "gatts_event_handler s gatt_if
     (ESP_GATTS_WRITE_EVT \<lparr> w_conn_id = cid, w_trans_id = tid, w_handle = ota_char_handle s,
        w_need_rsp = rsp, w_value = command # rest \<rparr>)
   = (if command = 0x01 then s\<lparr>ota_mode_requested := True\<rparr> else s,
      if rsp then [esp_ble_gatts_send_response gatt_if cid tid] else [])"
  by simp

text \<open>
  C10. A write request on the Control attribute handle with an empty payload leaves every
  global as it was, so it never sets \<open>ota_mode_requested\<close>, and is still answered exactly
  when the peer asked for a response.
\<close>

theorem C10_control_write_empty:
  "gatts_event_handler s gatt_if
     (ESP_GATTS_WRITE_EVT \<lparr> w_conn_id = cid, w_trans_id = tid, w_handle = ota_char_handle s,
        w_need_rsp = rsp, w_value = [] \<rparr>)
   = (s, if rsp then [esp_ble_gatts_send_response gatt_if cid tid] else [])"
  by simp

section \<open>The firmware upload\<close>

lemma calls_then_simps [simp]:
  "fst (calls_then cs r) = fst r"
  "fst (snd (calls_then cs r)) = fst (snd r)"
  "snd (snd (calls_then cs r)) = cs @ snd (snd r)"
  by (simp_all add: calls_then_def)

lemma rx_chunks_data:
  assumes "remaining > 0"
  shows "rx_chunks P E (RecvData bytes # rest) remaining fc s =
    (let buf = take (nat (min remaining OTA_CHUNK_SIZE)) bytes;
         recv_len = int (length buf)
     in if recv_len \<le> 0 then
          (Returned ESP_FAIL, failed s OTA_ERR_OTA_WRITE,
           [esp_ota_abort, httpd_resp_send_err HTTPD_500_INTERNAL_SERVER_ERROR ''Receive error''])
        else if fc \<and> nat recv_len < image_header_size P then
          (Returned ESP_FAIL, failed s OTA_ERR_VALIDATION,
           [esp_ota_abort, httpd_resp_send_err HTTPD_400_BAD_REQUEST ''Invalid firmware''])
        else if fc \<and> hd buf \<noteq> ESP_IMAGE_HEADER_MAGIC P then
          (Returned ESP_FAIL, failed s OTA_ERR_VALIDATION,
           [esp_ota_abort, httpd_resp_send_err HTTPD_400_BAD_REQUEST ''Invalid firmware header''])
        else if ota_write_result E (unat (received_size s)) \<noteq> ESP_OK then
          (Returned ESP_FAIL, failed s OTA_ERR_OTA_WRITE,
           [esp_ota_write (unat (received_size s)) buf (ota_write_result E (unat (received_size s))),
            esp_ota_abort, httpd_resp_send_err HTTPD_500_INTERNAL_SERVER_ERROR ''Write error''])
        else calls_then [esp_ota_write (unat (received_size s)) buf
                           (ota_write_result E (unat (received_size s)))]
               (rx_chunks P E rest (remaining - recv_len) False
                  (s\<lparr>received_size := received_size s + word_of_int recv_len,
                     update_progress :=
                       sint (((received_size s + word_of_int recv_len) * 100) div total_size s)\<rparr>)))"
  using assms by (simp only: rx_chunks.simps if_True recv_result.case Let_def)

lemma rx_chunks_timeouts:
  "rx_chunks P E (replicate k RecvTimeout @ rest) remaining fc s = rx_chunks P E rest remaining fc s"
proof (induction k)
  case 0
  then show ?case by simp
next
  case (Suc k)
  then show ?case by (cases rest) auto
qed

text \<open>Where the boot partition is set: right after a successful \<^verbatim>\<open>esp_ota_end\<close>.\<close>

lemma set_boot_in_finalize:
  assumes "snd (snd (finalize P E s)) = pre @ esp_ota_set_boot_partition part r # post"
  shows "pre = [esp_ota_end ESP_OK]"
  using assms
  by (auto simp: finalize_def Let_def Cons_eq_append_conv split: if_splits)

lemma set_boot_after_cons:
  assumes "c # cs = pre @ esp_ota_set_boot_partition part r # post"
    and "\<And>p q. c \<noteq> esp_ota_set_boot_partition p q"
    and "\<And>pre'. cs = pre' @ esp_ota_set_boot_partition part r # post \<Longrightarrow>
            pre' \<noteq> [] \<and> last pre' = esp_ota_end ESP_OK"
  shows "pre \<noteq> [] \<and> last pre = esp_ota_end ESP_OK"
proof (cases pre)
  case Nil
  with assms(1,2) show ?thesis by simp
next
  case (Cons a pre')
  with assms(1) have "cs = pre' @ esp_ota_set_boot_partition part r # post" by simp
  from assms(3)[OF this] Cons show ?thesis by simp
qed

lemma set_boot_in_rx_chunks:
  "snd (snd (rx_chunks P E script remaining fc s)) = pre @ esp_ota_set_boot_partition part r # post
   \<Longrightarrow> pre \<noteq> [] \<and> last pre = esp_ota_end ESP_OK"
proof (induction script arbitrary: remaining fc s pre)
  case Nil
  then show ?case using set_boot_in_finalize[of P E s pre part r post]
    by (auto split: if_splits)
next
  case (Cons a script)
  show ?case
  proof (cases "remaining > 0")
    case False
    with Cons.prems show ?thesis using set_boot_in_finalize[of P E s pre part r post] by auto
  next
    case pos: True
    show ?thesis
    proof (cases a)
      case RecvTimeout
      with pos Cons.prems Cons.IH show ?thesis by simp
    next
      case RecvError
      with pos Cons.prems show ?thesis by (auto simp: Cons_eq_append_conv)
    next
      case (RecvData bytes)
      define buf where "buf = take (nat (min remaining OTA_CHUNK_SIZE)) bytes"
      note unf = rx_chunks_data[OF pos, of P E bytes script fc s, unfolded Let_def, folded buf_def]
      show ?thesis
      proof (cases "int (length buf) \<le> 0 \<or> (fc \<and> nat (int (length buf)) < image_header_size P)
                    \<or> (fc \<and> hd buf \<noteq> ESP_IMAGE_HEADER_MAGIC P)
                    \<or> ota_write_result E (unat (received_size s)) \<noteq> ESP_OK")
        case True
        with Cons.prems show ?thesis unfolding RecvData unf
          by (auto simp: Cons_eq_append_conv split: if_splits)
      next
        case False
        with Cons.prems obtain s1 where
          eq: "esp_ota_write (unat (received_size s)) buf ESP_OK
                 # snd (snd (rx_chunks P E script (remaining - int (length buf)) False s1))
               = pre @ esp_ota_set_boot_partition part r # post"
          unfolding RecvData unf by (cases fc) auto
        show ?thesis
          by (rule set_boot_after_cons[OF eq]) (simp, rule Cons.IH)
      qed
    qed
  qed
qed

text \<open>The invariants of the receive loop.\<close>

lemma finalize_inv:
  assumes "progress_ok s" "counted remaining s" "remaining \<le> 0"
  shows "total_size (fst (snd (finalize P E s))) = total_size s \<and>
         received_size (fst (snd (finalize P E s))) = received_size s \<and>
         (fst (finalize P E s) \<noteq> Restarted \<longrightarrow> progress_ok (fst (snd (finalize P E s))))"
  using assms by (auto simp: finalize_def Let_def failed_def progress_ok_def)

lemma counted_step:
  assumes c: "counted remaining s" and pos: "0 < remaining" and n: "n \<le> nat (min remaining OTA_CHUNK_SIZE)"
  shows "counted (remaining - int n) (s\<lparr>received_size := received_size s + word_of_int (int n), update_progress := p\<rparr>)"
proof -
  from c pos have eq: "uint (received_size s) + remaining = uint (total_size s)"
    by (simp add: counted_def)
  from n pos have nr: "int n \<le> remaining" by simp
  have tb: "uint (total_size s) < 2 ^ 32" using uint_bounded[of "total_size s"] by simp
  have r0: "0 \<le> uint (received_size s)" by simp
  from eq nr tb have sum: "uint (received_size s) + int n < 2 ^ 32" by linarith
  from sum r0 have "int n < 2 ^ 32" by linarith
  then have n32: "n < 2 ^ 32" by simp
  have un: "uint (word_of_nat n :: u32) = int n"
    using n32 by (simp add: uint_nat unat_of_nat)
  have "uint (received_size s + word_of_int (int n)) = (uint (received_size s) + int n) mod 2 ^ 32"
    by (simp add: uint_word_ariths un)
  also have "\<dots> = uint (received_size s) + int n"
    using sum r0 by (simp add: mod_pos_pos_trivial)
  finally show ?thesis using eq nr unfolding counted_def by simp
qed

lemma counted_zero: "counted 0 s \<Longrightarrow> received_size s = total_size s"
  by (simp add: counted_def word_uint_eq_iff)

lemma rx_chunks_inv:
  "progress_ok s \<Longrightarrow> counted remaining s \<Longrightarrow>
   total_size (fst (snd (rx_chunks P E script remaining fc s))) = total_size s \<and>
   uint (received_size (fst (snd (rx_chunks P E script remaining fc s)))) \<le> uint (total_size s) \<and>
   (fst (rx_chunks P E script remaining fc s) \<noteq> Restarted \<longrightarrow>
       progress_ok (fst (snd (rx_chunks P E script remaining fc s)))) \<and>
   ((\<exists>e. esp_ota_end e \<in> set (snd (snd (rx_chunks P E script remaining fc s)))) \<longrightarrow>
       0 \<le> remaining \<longrightarrow>
       received_size (fst (snd (rx_chunks P E script remaining fc s))) = total_size s)"
proof (induction script arbitrary: remaining fc s)
  case Nil
  show ?case
  proof (cases "remaining > 0")
    case True
    with Nil show ?thesis by (simp add: counted_def)
  next
    case False
    then have le: "remaining \<le> 0" by simp
    have "0 \<le> remaining \<Longrightarrow> received_size s = total_size s"
      using counted_zero[of s] Nil(2) le by (cases "remaining = 0") auto
    with finalize_inv[OF Nil(1,2) le, of P E] Nil(2) show ?thesis
      using False by (simp add: counted_def)
  qed
next
  case (Cons a script)
  show ?case
  proof (cases "remaining > 0")
    case False
    then have le: "remaining \<le> 0" by simp
    have "0 \<le> remaining \<Longrightarrow> received_size s = total_size s"
      using counted_zero[of s] Cons.prems(2) le by (cases "remaining = 0") auto
    with finalize_inv[OF Cons.prems le, of P E] Cons.prems(2) show ?thesis
      using False by (simp add: counted_def)
  next
    case pos: True
    show ?thesis
    proof (cases a)
      case RecvTimeout
      with pos Cons.IH[OF Cons.prems] show ?thesis by simp
    next
      case RecvError
      with pos Cons.prems show ?thesis by (simp add: failed_def progress_ok_def counted_def)
    next
      case (RecvData bytes)
      define buf where "buf = take (nat (min remaining OTA_CHUNK_SIZE)) bytes"
      define s1 where "s1 = s\<lparr>received_size := received_size s + word_of_int (int (length buf)),
                     update_progress :=
                       sint (((received_size s + word_of_int (int (length buf))) * 100) div total_size s)\<rparr>"
      note unf = rx_chunks_data[OF pos, of P E bytes script fc s, unfolded Let_def, folded buf_def, folded s1_def]
      have fl: "progress_ok (failed s e)" "total_size (failed s e) = total_size s"
         "received_size (failed s e) = received_size s" for e
        using Cons.prems(1) by (simp_all add: failed_def progress_ok_def)
      show ?thesis
      proof (cases "int (length buf) \<le> 0 \<or> (fc \<and> nat (int (length buf)) < image_header_size P)
                    \<or> (fc \<and> hd buf \<noteq> ESP_IMAGE_HEADER_MAGIC P)
                    \<or> ota_write_result E (unat (received_size s)) \<noteq> ESP_OK")
        case True
        with Cons.prems(2) fl show ?thesis unfolding RecvData unf
          by (auto simp: counted_def split: if_splits)
      next
        case False
        have lb: "length buf \<le> nat (min remaining OTA_CHUNK_SIZE)" by (simp add: buf_def)
        have c1: "counted (remaining - int (length buf)) s1"
          unfolding s1_def by (rule counted_step[OF Cons.prems(2) pos lb])
        have p1: "progress_ok s1" by (simp add: s1_def progress_ok_def)
        have t1: "total_size s1 = total_size s" by (simp add: s1_def)
        have r1: "0 \<le> remaining - int (length buf)" using lb pos by simp
        from False have res: "rx_chunks P E (a # script) remaining fc s =
            calls_then [esp_ota_write (unat (received_size s)) buf (ota_write_result E (unat (received_size s)))]
             (rx_chunks P E script (remaining - int (length buf)) False s1)"
          unfolding RecvData unf by (cases fc) auto
        show ?thesis unfolding res using Cons.IH[OF p1 c1, of False] t1 r1 by simp
      qed
    qed
  qed
qed


lemma sint_u32: "sint (w :: 32 word) = (if uint w < 2 ^ 31 then uint w else uint w - 2 ^ 32)"
proof -
  have b: "0 \<le> uint w" "uint w < 2 ^ 32" using uint_bounded[of w] by simp_all
  have s: "sint w = (uint w + 2 ^ 31) mod 2 ^ 32 - 2 ^ 31"
    by (simp add: sint_uint signed_take_bit_eq_take_bit_shift take_bit_eq_mod)
  show ?thesis
  proof (cases "uint w < 2 ^ 31")
    case True
    with b have "(uint w + 2 ^ 31) mod 2 ^ 32 = uint w + 2 ^ 31"
      by (simp add: mod_pos_pos_trivial)
    with s True show ?thesis by simp
  next
    case False
    with b have "(uint w + 2 ^ 31) mod 2 ^ 32 = uint w + 2 ^ 31 - 2 ^ 32"
      using mod_pos_pos_trivial[of "uint w + 2 ^ 31 - 2 ^ 32" "2 ^ 32"]
        mod_add_self2[of "uint w + 2 ^ 31 - 2 ^ 32" "2 ^ 32"]
      by (simp add: add.commute)
    with s False show ?thesis by simp
  qed
qed

lemma uint_pos: "(w :: 32 word) \<noteq> 0 \<Longrightarrow> 0 < uint w"
  by (metis uint_0_iff uint_ge_0 order_less_le)


lemma sint_small: "uint (w :: u32) < 2 ^ 31 \<Longrightarrow> sint w = uint w"
  by (simp add: sint_u32)

lemma progress_ok_wrapped:
  assumes ok: "progress_ok s" and le: "uint (received_size s) \<le> uint (total_size s)"
    and nz: "total_size s \<noteq> 0"
  shows "update_progress s = wrapped_progress (unat (received_size s)) (unat (total_size s))"
proof -
  let ?r = "uint (received_size s)" and ?t = "uint (total_size s)"
  have q: "uint ((received_size s * 100) div total_size s) = ((?r * 100) mod 2 ^ 32) div ?t"
    by (simp add: uint_div uint_word_ariths)
  have t0: "0 < ?t" using nz by (rule uint_pos)
  have r0: "0 \<le> ?r" by simp
  have small: "((?r * 100) mod 2 ^ 32) div ?t < 2 ^ 31"
  proof (cases "?t = 1")
    case True
    with le r0 have "?r * 100 \<le> 100" by simp
    then have "(?r * 100) mod 2 ^ 32 \<le> 100" using r0 by (simp add: mod_pos_pos_trivial)
    with True show ?thesis by simp
  next
    case False
    with t0 have t2: "2 \<le> ?t" by simp
    have m: "(?r * 100) mod 2 ^ 32 < 2 ^ 32" by simp
    have m0: "0 \<le> (?r * 100) mod 2 ^ 32" by simp
    have "((?r * 100) mod 2 ^ 32) div ?t \<le> ((?r * 100) mod 2 ^ 32) div 2"
      using t2 m0 by (intro zdiv_mono2) auto
    also have "\<dots> < 2 ^ 31" using m by simp
    finally show ?thesis .
  qed
  have "update_progress s = ((?r * 100) mod 2 ^ 32) div ?t"
    using ok small unfolding progress_ok_def q[symmetric] by (simp add: sint_small)
  also have "\<dots> = wrapped_progress (unat (received_size s)) (unat (total_size s))"
    unfolding wrapped_progress_def
    by (simp add: zdiv_int zmod_int flip: uint_nat)
  finally show ?thesis .
qed

lemma wrapped_exact: "received * 100 < 2 ^ 32 \<Longrightarrow> wrapped_progress received tot = exact_progress received tot"
  by (simp add: wrapped_progress_def exact_progress_def)

lemma handler_inv:
  assumes nz: "content_len req \<noteq> 0"
  shows "total_size (fst (snd (update_post_handler P E req s))) = content_len req \<and>
         uint (received_size (fst (snd (update_post_handler P E req s)))) \<le> uint (content_len req) \<and>
         (fst (update_post_handler P E req s) \<noteq> Restarted \<longrightarrow>
            progress_ok (fst (snd (update_post_handler P E req s)))) \<and>
         ((\<exists>e. esp_ota_end e \<in> set (snd (snd (update_post_handler P E req s)))) \<longrightarrow>
            0 \<le> sint (content_len req) \<longrightarrow>
            received_size (fst (snd (update_post_handler P E req s))) = content_len req)"
proof -
  let ?s1 = "s\<lparr>current_state := OTA_STATE_UPDATING, total_size := content_len req,
                     received_size := 0, update_progress := 0,
                     update_partition := next_update_partition E\<rparr>"
  let ?s2 = "?s1\<lparr>ota_handle := ota_begin_handle E\<rparr>"
  have p: "progress_ok ?s2" "progress_ok (failed ?s1 e)" "progress_ok (failed ?s2 e)" for e
    by (simp_all add: progress_ok_def failed_def)
  have c: "counted (sint (content_len req)) ?s2"
    using uint_bounded[of "content_len req"] by (auto simp: counted_def sint_u32 split: if_splits)
  show ?thesis
  proof (cases "next_update_partition E \<noteq> None \<and> ota_begin_result E = ESP_OK \<and> malloc_ok E")
    case False
    with nz p show ?thesis
      by (auto simp: update_post_handler_def Let_def failed_def)
  next
    case True
    then have "update_post_handler P E req s = calls_then
        [esp_ota_get_next_update_partition, esp_ota_begin (ota_begin_result E)]
        (rx_chunks P E (recv_script E) (sint (content_len req)) True ?s2)"
      using nz by (auto simp: update_post_handler_def Let_def)
    then show ?thesis using rx_chunks_inv[OF p(1) c, of P E "recv_script E" True] by simp
  qed
qed


lemma ota_ready_eq: "ota_ready = \<lparr> current_state = OTA_STATE_WIFI_READY, update_progress = - 1, last_error = 0,
     http_server = True, ap_netif = True, wifi_initialized = True, ota_handle = 0,
     update_partition = None, total_size = 0, received_size = 0 \<rparr>"
  by (simp add: ota_ready_def ota_start_update_mode_def start_wifi_ap_def start_http_server_def
      ota_init_def ota_boot_def net_ok_def esp32s3_def ESP_OK_def Let_def)

text \<open>
  C1. When the first chunk that a receive call delivers (after any number of timeouts)
  is shorter than the image header, or its first byte is not the header magic, the
  handler returns \<open>ESP_FAIL\<close> with the state \<open>OTA_STATE_FAILED\<close> and the last error
  \<open>OTA_ERR_VALIDATION\<close>, aborts the session, and has made no call of \<^verbatim>\<open>esp_ota_write\<close>:
  no byte of the upload reaches the partition.
\<close>

theorem C1_bad_first_chunk:
  assumes len: "0 < sint (content_len req)"
    and part: "next_update_partition E \<noteq> None"
    and beg: "ota_begin_result E = ESP_OK"
    and mem: "malloc_ok E"
    and script: "recv_script E = replicate k RecvTimeout @ RecvData bytes # rest"
    and chunk: "chunk = take (nat (min (sint (content_len req)) OTA_CHUNK_SIZE)) bytes"
    and got: "chunk \<noteq> []"
    and bad: "length chunk < image_header_size P \<or> hd chunk \<noteq> ESP_IMAGE_HEADER_MAGIC P"
  shows "fst (update_post_handler P E req s) = Returned ESP_FAIL \<and>
         current_state (fst (snd (update_post_handler P E req s))) = OTA_STATE_FAILED \<and>
         last_error (fst (snd (update_post_handler P E req s))) = OTA_ERR_VALIDATION \<and>
         flash_writes (snd (snd (update_post_handler P E req s))) = [] \<and>
         esp_ota_abort \<in> set (snd (snd (update_post_handler P E req s)))"
proof -
  from len have nz: "content_len req \<noteq> 0" by auto
  let ?s2 = "s\<lparr>current_state := OTA_STATE_UPDATING, total_size := content_len req,
                     received_size := 0, update_progress := 0,
                     update_partition := next_update_partition E, ota_handle := ota_begin_handle E\<rparr>"
  have loop: "rx_chunks P E (recv_script E) (sint (content_len req)) True ?s2
      = (Returned ESP_FAIL, failed ?s2 OTA_ERR_VALIDATION,
         [esp_ota_abort, httpd_resp_send_err HTTPD_400_BAD_REQUEST
            (if length chunk < image_header_size P then ''Invalid firmware'' else ''Invalid firmware header'')])"
    using got bad unfolding script rx_chunks_timeouts chunk rx_chunks_data[OF len] Let_def
    by auto
  show ?thesis
    using nz part beg mem loop by (auto simp: update_post_handler_def Let_def failed_def)
qed

theorem C1_witness:
  "0 < sint (content_len \<lparr>content_len = 100\<rparr>) \<and>
   fst (update_post_handler esp32s3 (upload_env_ok [RecvTimeout, RecvData (replicate 30 0x41)])
          \<lparr>content_len = 100\<rparr> ota_ready) = Returned ESP_FAIL \<and>
   current_state (fst (snd (update_post_handler esp32s3 (upload_env_ok [RecvTimeout, RecvData (replicate 30 0x41)])
          \<lparr>content_len = 100\<rparr> ota_ready))) = OTA_STATE_FAILED \<and>
   last_error (fst (snd (update_post_handler esp32s3 (upload_env_ok [RecvTimeout, RecvData (replicate 30 0x41)])
          \<lparr>content_len = 100\<rparr> ota_ready))) = OTA_ERR_VALIDATION \<and>
   flash_writes (snd (snd (update_post_handler esp32s3 (upload_env_ok [RecvTimeout, RecvData (replicate 30 0x41)])
          \<lparr>content_len = 100\<rparr> ota_ready))) = []"
  using C1_bad_first_chunk[of "\<lparr>content_len = 100\<rparr>" "upload_env_ok [RecvTimeout, RecvData (replicate 30 0x41)]"
      1 "replicate 30 0x41" "[]" "replicate 30 0x41" esp32s3 ota_ready]
  by (simp add: upload_env_ok_def OTA_CHUNK_SIZE_def esp32s3_def)

text \<open>
  In every run of the handler, a call of \<^verbatim>\<open>esp_ota_set_boot_partition\<close> comes directly
  after a call of \<^verbatim>\<open>esp_ota_end\<close> that returned \<open>ESP_OK\<close>; and when the declared length
  fits a C \<^verbatim>\<open>int\<close>, every declared byte has been received and written by then.
\<close>

lemma boot_only_after_end:
  assumes "snd (snd (update_post_handler P E req s)) = pre @ esp_ota_set_boot_partition part r # post"
  shows "pre \<noteq> [] \<and> last pre = esp_ota_end ESP_OK \<and>
         (0 \<le> sint (content_len req) \<longrightarrow>
            received_size (fst (snd (update_post_handler P E req s))) = content_len req)"
proof -
  have order: "pre \<noteq> [] \<and> last pre = esp_ota_end ESP_OK"
  proof (cases "content_len req \<noteq> 0 \<and> next_update_partition E \<noteq> None
                 \<and> ota_begin_result E = ESP_OK \<and> malloc_ok E")
    case False
    with assms show ?thesis
      by (auto simp: update_post_handler_def Let_def Cons_eq_append_conv split: if_splits)
  next
    case True
    with assms obtain s2 where eq:
      "esp_ota_get_next_update_partition # esp_ota_begin (ota_begin_result E) #
         snd (snd (rx_chunks P E (recv_script E) (sint (content_len req)) True s2))
        = pre @ esp_ota_set_boot_partition part r # post"
      by (auto simp: update_post_handler_def Let_def)
    show ?thesis
    proof (rule set_boot_after_cons[OF eq])
      fix pre'
      assume "esp_ota_begin (ota_begin_result E) #
          snd (snd (rx_chunks P E (recv_script E) (sint (content_len req)) True s2))
          = pre' @ esp_ota_set_boot_partition part r # post"
      then show "pre' \<noteq> [] \<and> last pre' = esp_ota_end ESP_OK"
        by (rule set_boot_after_cons) (simp, rule set_boot_in_rx_chunks)
    qed simp
  qed
  then have "esp_ota_end ESP_OK \<in> set pre" using last_in_set[of pre] by auto
  with assms have ended: "\<exists>e. esp_ota_end e \<in> set (snd (snd (update_post_handler P E req s)))"
    by auto
  have nz: "content_len req \<noteq> 0"
    using assms by (auto simp: update_post_handler_def Cons_eq_append_conv)
  from handler_inv[OF nz, of P E s] ended order show ?thesis by blast
qed



text \<open>
  C3, as the code has it. A request with declared content length zero is answered with
  the error response 400 and \<open>ESP_FAIL\<close>; no other call is made, so nothing is written
  to flash, and no global changes: the state stays what it was and the last error is
  not set.
\<close>

theorem C3_zero_length:
  "update_post_handler P E \<lparr>content_len = 0\<rparr> s
     = (Returned ESP_FAIL, s, [httpd_resp_send_err HTTPD_400_BAD_REQUEST ''No firmware data''])"
  by (simp add: update_post_handler_def)

text \<open>
  C3 as stated fails: after a zero-length request to a pipeline that is ready, the state
  is not \<open>OTA_STATE_FAILED\<close> with last error \<open>OTA_ERR_VALIDATION\<close>.
\<close>

theorem C3_counterexample:
  "\<not> (current_state (fst (snd (update_post_handler esp32s3 (upload_env_ok []) \<lparr>content_len = 0\<rparr> ota_ready)))
        = OTA_STATE_FAILED \<and>
      last_error (fst (snd (update_post_handler esp32s3 (upload_env_ok []) \<lparr>content_len = 0\<rparr> ota_ready)))
        = OTA_ERR_VALIDATION)"
  by (simp add: update_post_handler_def ota_ready_eq)

text \<open>
  Whenever the handler is blocked waiting for the next chunk, or has returned an error,
  after a request with a non-zero declared length, the progress is
  \<open>((received * 100) mod 2^32) div total\<close>: the product is taken in 32-bit unsigned
  arithmetic. It is \<open>floor(received * 100 / total)\<close> whenever \<open>received * 100\<close> is below
  \<open>2^32\<close>. With 12345 bytes declared and 6172 received the progress is 49.
\<close>

lemma progress_wrapped_quotient:
  assumes nz: "content_len req \<noteq> 0"
    and run: "fst (update_post_handler P E req s) \<noteq> Restarted"
  shows "update_progress (fst (snd (update_post_handler P E req s)))
           = wrapped_progress (unat (received_size (fst (snd (update_post_handler P E req s)))))
               (unat (content_len req)) \<and>
         (unat (received_size (fst (snd (update_post_handler P E req s)))) * 100 < 2 ^ 32 \<longrightarrow>
          update_progress (fst (snd (update_post_handler P E req s)))
           = exact_progress (unat (received_size (fst (snd (update_post_handler P E req s)))))
               (unat (content_len req))) \<and>
         received_size (fst (snd (update_post_handler esp32s3
            (upload_env_ok [RecvData (0xE9 # replicate 4095 0), RecvData (replicate 2076 0)])
            \<lparr>content_len = 12345\<rparr> ota_ready))) = 6172 \<and>
         update_progress (fst (snd (update_post_handler esp32s3
            (upload_env_ok [RecvData (0xE9 # replicate 4095 0), RecvData (replicate 2076 0)])
            \<lparr>content_len = 12345\<rparr> ota_ready))) = 49"
proof -
  have gen: "update_progress (fst (snd (update_post_handler P' E' req' s')))
           = wrapped_progress (unat (received_size (fst (snd (update_post_handler P' E' req' s')))))
               (unat (content_len req'))"
    if nz': "content_len req' \<noteq> 0" and run': "fst (update_post_handler P' E' req' s') \<noteq> Restarted"
    for P' E' req' s'
  proof -
    let ?s = "fst (snd (update_post_handler P' E' req' s'))"
    from handler_inv[OF nz', of P' E' s'] run'
    have t: "total_size ?s = content_len req'"
      and le: "uint (received_size ?s) \<le> uint (total_size ?s)"
      and ok: "progress_ok ?s" by simp_all
    from nz' t have tz: "total_size ?s \<noteq> 0" by simp
    from progress_ok_wrapped[OF ok le tz] t show ?thesis by simp
  qed
  let ?r = "update_post_handler esp32s3
          (upload_env_ok [RecvData (0xE9 # replicate 4095 0), RecvData (replicate 2076 0)])
          \<lparr>content_len = 12345\<rparr> ota_ready"
  have o: "fst ?r = Blocked" and r: "received_size (fst (snd ?r)) = 6172"
    by (simp_all add: update_post_handler_def upload_env_ok_def esp32s3_def OTA_CHUNK_SIZE_def
        Let_def)
  have "update_progress (fst (snd ?r)) = wrapped_progress 6172 12345"
    using gen[of "\<lparr>content_len = 12345\<rparr>" esp32s3
        "upload_env_ok [RecvData (0xE9 # replicate 4095 0), RecvData (replicate 2076 0)]" ota_ready]
      o r by simp
  then have inst: "update_progress (fst (snd ?r)) = 49" by (simp add: wrapped_progress_def)
  show ?thesis using gen[OF nz run] r inst by (simp add: wrapped_exact)
qed




section \<open>The mode coordinator\<close>

lemma ota_stop_update_mode_state:
  "fst (ota_stop_update_mode g) = g\<lparr>http_server := False, current_state := OTA_STATE_IDLE, update_progress := - 1\<rparr>"
  by (cases g) (simp add: ota_stop_update_mode_def stop_http_server_def Let_def)

lemma ota_stop_update_mode_calls:
  "snd (ota_stop_update_mode g) = (if http_server g then [httpd_stop] else []) @ [esp_wifi_stop, esp_wifi_deinit]"
  by (simp add: ota_stop_update_mode_def stop_http_server_def stop_wifi_ap_def Let_def)

lemma ota_wait_timeout:
  assumes "\<forall>(g', t') \<in> set pre. in_progress g' \<and> \<not> t' - t0 > OTA_TIMEOUT_TICKS P"
    and "in_progress gk" and "now - t0 > OTA_TIMEOUT_TICKS P"
  shows "ota_wait P t0 (pre @ (gk, now) # rest) g =
     (DeviceRestart, fst (ota_stop_update_mode gk),
      replicate (length pre) (vTaskDelay_ms 1000) @ snd (ota_stop_update_mode gk)
        @ [vTaskDelay_ms 1000, esp_restart])"
  using assms
proof (induction pre arbitrary: g)
  case Nil
  then show ?case by (simp add: in_progress_def ota_get_state_def)
next
  case (Cons a pre)
  obtain g1 t1 where a: "a = (g1, t1)" by (cases a)
  from Cons.prems(1) a have 1: "in_progress g1" "\<not> t1 - t0 > OTA_TIMEOUT_TICKS P"
    and 2: "\<forall>(g', t') \<in> set pre. in_progress g' \<and> \<not> t' - t0 > OTA_TIMEOUT_TICKS P" by auto
  from Cons.IH[OF 2 Cons.prems(2,3), of g1] 1 show ?case
    by (simp add: a in_progress_def ota_get_state_def calls_then_def)
qed

lemma ota_wait_bounded:
  "\<exists>(g', t') \<in> set ps. t' - t0 > OTA_TIMEOUT_TICKS P \<Longrightarrow> fst (ota_wait P t0 ps g) \<noteq> StillWaiting"
proof (induction ps arbitrary: g)
  case Nil
  then show ?case by simp
next
  case (Cons a ps)
  obtain g1 t1 where a: "a = (g1, t1)" by (cases a)
  show ?case
  proof (cases "t1 - t0 > OTA_TIMEOUT_TICKS P")
    case True
    then show ?thesis by (simp add: a)
  next
    case False
    with Cons.prems a have "\<exists>(g', t') \<in> set ps. t' - t0 > OTA_TIMEOUT_TICKS P" by auto
    from Cons.IH[OF this, of g1] show ?thesis by (simp add: a)
  qed
qed

lemma start_ok: "ota_start_update_mode esp32s3 net_ok (ota_init ota_boot) = (Returned ESP_OK, ota_ready,
   [esp_netif_init ESP_OK, esp_event_loop_create_default ESP_OK, esp_netif_create_default_wifi_ap,
    esp_wifi_init ESP_OK, esp_event_handler_instance_register ESP_OK, esp_wifi_set_mode ESP_OK,
    esp_wifi_set_config ESP_OK, esp_wifi_start ESP_OK, httpd_start ESP_OK,
    httpd_register_uri_handler ''/'', httpd_register_uri_handler ''/update''])"
  by (simp add: ota_ready_eq) (simp add: ota_start_update_mode_def start_wifi_ap_def start_http_server_def
      ota_init_def ota_boot_def net_ok_def esp32s3_def ESP_OK_def Let_def)

text \<open>
  C5, as the code has it. When update mode has been entered and the wait loop reaches a
  pass at which the pipeline is in no terminal state and more than \<open>OTA_TIMEOUT_TICKS\<close>
  ticks have gone by since the start (every earlier pass having seen a state that is not
  terminal, within the ceiling), the coordinator calls \<open>ota_stop_update_mode\<close> and restarts the device: the HTTP server and
  the access point are stopped, the pipeline state is reset to \<open>OTA_STATE_IDLE\<close> and the
  progress to -1, and the last error keeps its value. The wait loop never goes on past
  a pass that is over the ceiling.
\<close>

theorem C5_timeout_restart:
  assumes flag: "ota_mode_requested m"
    and started: "fst (ota_start_update_mode P (net C) g) = Returned ESP_OK"
    and split: "polls C = pre @ (gk, now) # rest"
    and early: "\<forall>(g', t') \<in> set pre. in_progress g' \<and> \<not> t' - ota_start_time C > OTA_TIMEOUT_TICKS P"
    and cur: "in_progress gk"
    and over: "now - ota_start_time C > OTA_TIMEOUT_TICKS P"
  shows "fst (app_main_iter P C (m, g)) = DeviceRestart \<and>
         snd (fst (snd (app_main_iter P C (m, g))))
           = gk\<lparr>http_server := False, current_state := OTA_STATE_IDLE, update_progress := - 1\<rparr> \<and>
         (\<exists>cs. snd (snd (app_main_iter P C (m, g)))
            = cs @ (if http_server gk then [httpd_stop] else [])
                 @ [esp_wifi_stop, esp_wifi_deinit, vTaskDelay_ms 1000, esp_restart]) \<and>
         (\<forall>ps g0. (\<exists>(g', t') \<in> set ps. t' - ota_start_time C > OTA_TIMEOUT_TICKS P) \<longrightarrow>
            fst (ota_wait P (ota_start_time C) ps g0) \<noteq> StillWaiting)"
proof -
  let ?r = "ota_start_update_mode P (net C) g"
  let ?w = "ota_wait P (ota_start_time C) (polls C) (fst (snd ?r))"
  have iter: "app_main_iter P C (m, g) =
      (fst ?w, (m\<lparr>ota_mode_requested := False\<rparr>, fst (snd ?w)),
       [esp_ble_gap_stop_advertising, esp_bluedroid_disable, esp_bluedroid_deinit,
        esp_bt_controller_disable, esp_bt_controller_deinit] @ snd (snd ?r) @ snd (snd ?w)
         @ (if fst ?w = NextIteration then [vTaskDelay_ms 100] else []))"
    using flag started by (simp add: app_main_iter_def Let_def)
  have w: "?w = (DeviceRestart, fst (ota_stop_update_mode gk),
      replicate (length pre) (vTaskDelay_ms 1000) @ snd (ota_stop_update_mode gk)
        @ [vTaskDelay_ms 1000, esp_restart])"
    unfolding split by (rule ota_wait_timeout[OF early cur over])
  have a: "fst (app_main_iter P C (m, g)) = DeviceRestart \<and>
         snd (fst (snd (app_main_iter P C (m, g))))
           = gk\<lparr>http_server := False, current_state := OTA_STATE_IDLE, update_progress := - 1\<rparr> \<and>
         (\<exists>cs. snd (snd (app_main_iter P C (m, g)))
            = cs @ (if http_server gk then [httpd_stop] else [])
                 @ [esp_wifi_stop, esp_wifi_deinit, vTaskDelay_ms 1000, esp_restart])"
    unfolding iter w by (simp add: ota_stop_update_mode_state ota_stop_update_mode_calls)
  have b: "fst (ota_wait P (ota_start_time C) ps g0) \<noteq> StillWaiting"
    if "\<exists>(g', t') \<in> set ps. t' - ota_start_time C > OTA_TIMEOUT_TICKS P" for ps g0
    using that by (rule ota_wait_bounded)
  from a b show ?thesis by blast
qed

theorem C5_witness:
  "ota_mode_requested ((main_init esp32s3)\<lparr>ota_mode_requested := True\<rparr>) \<and>
   fst (app_main_iter esp32s3 coord_timeout
         ((main_init esp32s3)\<lparr>ota_mode_requested := True\<rparr>, ota_init ota_boot)) = DeviceRestart \<and>
   snd (fst (snd (app_main_iter esp32s3 coord_timeout
         ((main_init esp32s3)\<lparr>ota_mode_requested := True\<rparr>, ota_init ota_boot))))
     = ota_ready\<lparr>http_server := False, current_state := OTA_STATE_IDLE, update_progress := - 1\<rparr>"
proof -
  let ?m = "(main_init esp32s3)\<lparr>ota_mode_requested := True\<rparr>"
  have flag: "ota_mode_requested ?m" by simp
  have started: "fst (ota_start_update_mode esp32s3 (net coord_timeout) (ota_init ota_boot)) = Returned ESP_OK"
    by (simp add: coord_timeout_def start_ok)
  have split: "polls coord_timeout = [(ota_ready, 1000), (ota_ready, 2000)] @ (ota_ready, 301001) # []"
    by (simp add: coord_timeout_def)
  have early: "\<forall>(g', t') \<in> set [(ota_ready, 1000), (ota_ready, 2000::u32)].
       in_progress g' \<and> \<not> t' - ota_start_time coord_timeout > OTA_TIMEOUT_TICKS esp32s3"
    by (simp add: coord_timeout_def esp32s3_def in_progress_def ota_ready_eq)
  have cur: "in_progress ota_ready" by (simp add: in_progress_def ota_ready_eq)
  have over: "301001 - ota_start_time coord_timeout > OTA_TIMEOUT_TICKS esp32s3"
    by (simp add: coord_timeout_def esp32s3_def)
  from C5_timeout_restart[OF flag started split early cur over] flag show ?thesis by blast
qed

text \<open>
  C5 as stated fails: when the ceiling is reached with no upload started, the pipeline
  ends in \<open>OTA_STATE_IDLE\<close> with last error 0, not in \<open>OTA_STATE_FAILED\<close> with
  \<open>OTA_ERR_TIMEOUT\<close>.
\<close>

theorem C5_counterexample:
  "fst (app_main_iter esp32s3 coord_timeout
         ((main_init esp32s3)\<lparr>ota_mode_requested := True\<rparr>, ota_init ota_boot)) = DeviceRestart \<and>
   current_state (snd (fst (snd (app_main_iter esp32s3 coord_timeout
         ((main_init esp32s3)\<lparr>ota_mode_requested := True\<rparr>, ota_init ota_boot))))) = OTA_STATE_IDLE \<and>
   last_error (snd (fst (snd (app_main_iter esp32s3 coord_timeout
         ((main_init esp32s3)\<lparr>ota_mode_requested := True\<rparr>, ota_init ota_boot))))) = 0 \<and>
   OTA_ERR_TIMEOUT \<noteq> 0"
  by (simp add: app_main_iter_def coord_timeout_def start_ok Let_def)
     (simp add: ota_ready_eq esp32s3_def ota_get_state_def calls_then_def ota_stop_update_mode_state OTA_ERR_TIMEOUT_def)

lemma no_switch_in_start:
  "count_list (snd (snd (ota_start_update_mode P N g))) esp_ble_gap_stop_advertising = 0"
  by (simp add: ota_start_update_mode_def start_wifi_ap_def start_http_server_def stop_wifi_ap_def Let_def)

lemma no_switch_in_wait:
  "count_list (snd (snd (ota_wait P t0 ps g))) esp_ble_gap_stop_advertising = 0"
proof (induction ps arbitrary: g)
  case Nil
  then show ?case by simp
next
  case (Cons a ps)
  obtain g1 t1 where a: "a = (g1, t1)" by (cases a)
  from Cons.IH[of g1] show ?case
    by (simp add: a ota_stop_update_mode_calls)
qed

lemma app_main_iter_requested:
  assumes "ota_mode_requested m"
  shows "mode_switches (snd (snd (app_main_iter P C (m, g)))) = 1 \<and>
         fst (fst (snd (app_main_iter P C (m, g)))) = m\<lparr>ota_mode_requested := False\<rparr>"
  using assms no_switch_in_start[of P "net C" g]
    no_switch_in_wait[of P "ota_start_time C" "polls C" "fst (snd (ota_start_update_mode P (net C) g))"]
  by (simp add: app_main_iter_def mode_switches_def Let_def)

lemma app_main_loop_idle:
  "\<not> ota_mode_requested (fst st) \<Longrightarrow>
   mode_switches (snd (snd (app_main_loop P Cs st))) = 0 \<and> fst (snd (app_main_loop P Cs st)) = st"
  by (induction Cs) (simp_all add: app_main_iter_def mode_switches_def Let_def)

text \<open>
  C6. After two write requests with first byte 0x01 on the Control attribute, the flag
  is set and the state is the one the first write left. The control loop, for any number
  of passes from one on, then makes exactly one mode switch, and the flag is clear after
  it: the pass that sees the flag clears it before the transition, and a pass that sees
  no flag switches nothing.
\<close>

theorem C6_single_switch:
  assumes h1: "w_handle w1 = ota_char_handle m" and v1: "w_value w1 = 0x01 # r1"
    and h2: "w_handle w2 = ota_char_handle m" and v2: "w_value w2 = 0x01 # r2"
    and m1: "m1 = fst (gatts_event_handler m gif (ESP_GATTS_WRITE_EVT w1))"
    and m2: "m2 = fst (gatts_event_handler m1 gif (ESP_GATTS_WRITE_EVT w2))"
  shows "ota_mode_requested m2 \<and> m2 = m1 \<and>
         mode_switches (snd (snd (app_main_loop P (C # Cs) (m2, g)))) = 1 \<and>
         \<not> ota_mode_requested (fst (fst (snd (app_main_loop P (C # Cs) (m2, g)))))"
proof -
  have e1: "m1 = m\<lparr>ota_mode_requested := True\<rparr>"
    using h1 v1 by (simp add: m1)
  have e2: "m2 = m1" using h2 v2 by (simp add: m2 e1)
  have f: "ota_mode_requested m2" by (simp add: e2 e1)
  let ?r = "app_main_iter P C (m2, g)"
  from app_main_iter_requested[OF f, of P C g]
  have one: "mode_switches (snd (snd ?r)) = 1"
    and cleared: "fst (fst (snd ?r)) = m2\<lparr>ota_mode_requested := False\<rparr>" by simp_all
  then have idle: "\<not> ota_mode_requested (fst (fst (snd ?r)))" by simp
  have "mode_switches (snd (snd (app_main_loop P (C # Cs) (m2, g)))) = 1 \<and>
        \<not> ota_mode_requested (fst (fst (snd (app_main_loop P (C # Cs) (m2, g)))))"
  proof (cases "fst ?r = NextIteration")
    case True
    with app_main_loop_idle[OF idle, of P Cs] one idle show ?thesis
      by (simp add: Let_def mode_switches_def)
  next
    case False
    with one idle show ?thesis by (simp add: Let_def)
  qed
  with f e2 show ?thesis by simp
qed


theorem C6_witness:
  "mode_switches (snd (snd (app_main_loop esp32s3 [coord_timeout, coord_timeout]
      (fst (gatts_event_handler
         (fst (gatts_event_handler ((main_init esp32s3)\<lparr>ota_char_handle := 46\<rparr>) 3
            (ESP_GATTS_WRITE_EVT \<lparr> w_conn_id = 0, w_trans_id = 1, w_handle = 46,
               w_need_rsp = True, w_value = [0x01] \<rparr>)))
         3 (ESP_GATTS_WRITE_EVT \<lparr> w_conn_id = 0, w_trans_id = 2, w_handle = 46,
               w_need_rsp = True, w_value = [0x01] \<rparr>)),
       ota_init ota_boot)))) = 1 \<and>
   ota_mode_requested (fst (gatts_event_handler
         (fst (gatts_event_handler ((main_init esp32s3)\<lparr>ota_char_handle := 46\<rparr>) 3
            (ESP_GATTS_WRITE_EVT \<lparr> w_conn_id = 0, w_trans_id = 1, w_handle = 46,
               w_need_rsp = True, w_value = [0x01] \<rparr>)))
         3 (ESP_GATTS_WRITE_EVT \<lparr> w_conn_id = 0, w_trans_id = 2, w_handle = 46,
               w_need_rsp = True, w_value = [0x01] \<rparr>)))"
proof -
  let ?m = "(main_init esp32s3)\<lparr>ota_char_handle := 46\<rparr>"
  let ?w1 = "\<lparr> w_conn_id = 0, w_trans_id = 1, w_handle = 46, w_need_rsp = True, w_value = [0x01] \<rparr>"
  let ?w2 = "\<lparr> w_conn_id = 0, w_trans_id = 2, w_handle = 46, w_need_rsp = True, w_value = [0x01] \<rparr>"
  have h1: "w_handle ?w1 = ota_char_handle ?m" and v1: "w_value ?w1 = 0x01 # []"
    and h2: "w_handle ?w2 = ota_char_handle ?m" and v2: "w_value ?w2 = 0x01 # []"
    by simp_all
  from C6_single_switch[OF h1 v1 h2 v2 refl refl, of 3 esp32s3 coord_timeout "[coord_timeout]" "ota_init ota_boot"]
  show ?thesis by simp
qed


section \<open>The data watchdog\<close>

lemma quiet_loop:
  assumes "quiet ps"
  shows "device_active_loop P ps s =
     (case find (\<lambda>p. silence_at P s p > DATA_TIMEOUT_MS) ps of
        None \<Rightarrow> (StillActive, s)
      | Some p \<Rightarrow> (WatchdogExpired (silence_at P s p), s))"
  using assms by (induction ps) (simp_all add: quiet_def silence_at_def Let_def)

lemma expired_late:
  "fst (device_active_loop P ps s) = WatchdogExpired e \<Longrightarrow> e > DATA_TIMEOUT_MS"
proof (induction ps arbitrary: s)
  case Nil
  then show ?case by simp
next
  case (Cons p ps)
  then show ?case by (auto simp: Let_def split: if_splits)
qed

lemma unat_sub_step:
  fixes a b l :: u32
  shows "unat (a - l) \<le> unat (b - l) + unat (a - b)"
proof -
  have "a - l = (b - l) + (a - b)" by simp
  then have "unat (a - l) = unat ((b - l) + (a - b))" by (rule arg_cong)
  also have "\<dots> = (unat (b - l) + unat (a - b)) mod 2 ^ 32"
    by (simp only: unat_word_ariths(1)) simp
  also have "\<dots> \<le> unat (b - l) + unat (a - b)" by simp
  finally show ?thesis .
qed

text \<open>
  While no data arrives and no disconnect event is signalled, with the first check at
  most 1000 ms after the timestamp in \<^verbatim>\<open>last_data_time_ms\<close> and consecutive checks at most
  1000 ms apart, a run of checks that goes past the timeout leaves the wait loop with
  the watchdog at the first check at which more than \<open>DATA_TIMEOUT_MS\<close> have gone by: no
  earlier check was over the timeout, and the silence measured there is above 5000 ms
  and at most 6000 ms.
\<close>

lemma watchdog_quiet_run:
  assumes q: "quiet ps"
    and start: "ps \<noteq> [] \<longrightarrow> unat (silence_at P s (hd ps)) \<le> 1000"
    and step: "\<forall>i. Suc i < length ps \<longrightarrow>
        unat (tick_now (ps ! Suc i) * portTICK_PERIOD_MS P
                - tick_now (ps ! i) * portTICK_PERIOD_MS P) \<le> 1000"
    and late: "\<exists>p \<in> set ps. silence_at P s p > DATA_TIMEOUT_MS"
  shows "(\<exists>k < length ps.
           device_active_loop P ps s = (WatchdogExpired (silence_at P s (ps ! k)), s) \<and>
           (\<forall>j < k. silence_at P s (ps ! j) \<le> DATA_TIMEOUT_MS) \<and>
           5000 < unat (silence_at P s (ps ! k)) \<and>
           unat (silence_at P s (ps ! k)) \<le> 6000) \<and>
         (\<forall>ps' s' e. fst (device_active_loop P ps' s') = WatchdogExpired e \<longrightarrow> DATA_TIMEOUT_MS < e)"
proof -
  let ?exp = "\<lambda>p. silence_at P s p > DATA_TIMEOUT_MS"
  from late have "find ?exp ps \<noteq> None" by (auto simp: find_None_iff)
  then obtain x where fx: "find ?exp ps = Some x" by auto
  then obtain k where k: "k < length ps" "?exp (ps ! k)" "x = ps ! k" "\<forall>j<k. \<not> ?exp (ps ! j)"
    unfolding find_Some_iff by blast
  have res: "device_active_loop P ps s = (WatchdogExpired (silence_at P s (ps ! k)), s)"
    unfolding quiet_loop[OF q] fx using k(3) by simp
  have before: "\<forall>j<k. silence_at P s (ps ! j) \<le> DATA_TIMEOUT_MS"
    using k(4) by (simp add: not_less)
  have gt: "5000 < unat (silence_at P s (ps ! k))"
    using k(2) by (simp add: DATA_TIMEOUT_MS_def word_less_nat_alt)
  have le: "unat (silence_at P s (ps ! k)) \<le> 6000"
  proof (cases k)
    case 0
    with k(1) start have "unat (silence_at P s (ps ! k)) \<le> 1000"
      by (cases ps) auto
    then show ?thesis by simp
  next
    case (Suc j)
    with k(1) step
    have st: "unat (tick_now (ps ! k) * portTICK_PERIOD_MS P
                - tick_now (ps ! j) * portTICK_PERIOD_MS P) \<le> 1000"
      by simp
    from before Suc have "silence_at P s (ps ! j) \<le> DATA_TIMEOUT_MS" by simp
    then have pj: "unat (silence_at P s (ps ! j)) \<le> 5000"
      by (simp add: DATA_TIMEOUT_MS_def word_le_nat_alt)
    from unat_sub_step[of "tick_now (ps ! k) * portTICK_PERIOD_MS P" "last_data_time_ms s"
        "tick_now (ps ! j) * portTICK_PERIOD_MS P"] st pj
    show ?thesis by (simp add: silence_at_def)
  qed
  from k(1) res before gt le expired_late show ?thesis by blast
qed

text \<open>The timestamp is the tick count of the last callback, in milliseconds.\<close>

lemma rx_byte_stamp: "last_data_time_ms (fst (rx_byte P s c)) = last_data_time_ms s"
  by (simp add: rx_byte_def Let_def)

lemma handle_rx_loop_stamp: "last_data_time_ms (fst (handle_rx_loop P s data)) = last_data_time_ms s"
proof (induction data arbitrary: s)
  case Nil
  then show ?case by simp
next
  case (Cons c cs)
  from Cons[of "fst (rx_byte P s c)"] rx_byte_stamp[of P s c] show ?case
    by (simp add: split_beta)
qed

lemma handle_rx_stamp:
  "last_data_time_ms (fst (handle_rx P s now data)) = now * portTICK_PERIOD_MS P"
  by (simp add: handle_rx_def handle_rx_loop_stamp)

lemma fold_handle_rx_stamp:
  "last_data_time_ms (fold (\<lambda>(t, d) s'. fst (handle_rx P s' t d)) rxs s)
     = last_stamp P (last_data_time_ms s) rxs"
proof (induction rxs arbitrary: s)
  case Nil
  then show ?case by (simp add: last_stamp_def)
next
  case (Cons x rxs)
  obtain t d where x: "x = (t, d)" by (cases x)
  from Cons[of "fst (handle_rx P s t d)"] show ?case
    by (simp add: x last_stamp_def handle_rx_stamp)
qed

lemma device_active_loop_append:
  "fst (device_active_loop P pre s) = StillActive \<Longrightarrow>
   device_active_loop P (pre @ post) s = device_active_loop P post (snd (device_active_loop P pre s)) \<and>
   last_data_time_ms (snd (device_active_loop P pre s)) = stamp_after P (last_data_time_ms s) pre"
proof (induction pre arbitrary: s)
  case Nil
  then show ?case by simp
next
  case (Cons p pre)
  let ?s1 = "fold (\<lambda>(t, d) s'. fst (handle_rx P s' t d)) (rx_during p) s"
  from Cons.prems have go: "device_active_loop P (p # pre) s = device_active_loop P pre ?s1"
    and act: "fst (device_active_loop P pre ?s1) = StillActive"
    by (auto simp: Let_def split: if_splits)
  from Cons.prems have go2: "device_active_loop P ((p # pre) @ post) s = device_active_loop P (pre @ post) ?s1"
    by (auto simp: Let_def split: if_splits)
  from Cons.IH[OF act] show ?case
    unfolding go go2 by (simp add: fold_handle_rx_stamp)
qed

text \<open>
  The same after data: when the passes \<open>pre\<close> leave the session active and the passes
  \<open>post\<close> are quiet, the watchdog ends the session at the first check of \<open>post\<close> that is
  more than \<open>DATA_TIMEOUT_MS\<close> after the tick count of the last callback of \<open>pre\<close> (or
  after the initial timestamp when there was none), within 1000 ms of the expiry.
\<close>

lemma watchdog_after_last_data:
  assumes active: "fst (device_active_loop P pre s) = StillActive"
    and L: "L = stamp_after P (last_data_time_ms s) pre"
    and q: "quiet post"
    and start: "post \<noteq> [] \<longrightarrow> unat (tick_now (hd post) * portTICK_PERIOD_MS P - L) \<le> 1000"
    and step: "\<forall>i. Suc i < length post \<longrightarrow>
        unat (tick_now (post ! Suc i) * portTICK_PERIOD_MS P
                - tick_now (post ! i) * portTICK_PERIOD_MS P) \<le> 1000"
    and late: "\<exists>p \<in> set post. tick_now p * portTICK_PERIOD_MS P - L > DATA_TIMEOUT_MS"
  shows "\<exists>k < length post.
           fst (device_active_loop P (pre @ post) s)
             = WatchdogExpired (tick_now (post ! k) * portTICK_PERIOD_MS P - L) \<and>
           (\<forall>j < k. tick_now (post ! j) * portTICK_PERIOD_MS P - L \<le> DATA_TIMEOUT_MS) \<and>
           5000 < unat (tick_now (post ! k) * portTICK_PERIOD_MS P - L) \<and>
           unat (tick_now (post ! k) * portTICK_PERIOD_MS P - L) \<le> 6000"
proof -
  let ?s1 = "snd (device_active_loop P pre s)"
  from device_active_loop_append[OF active, of post]
  have app: "device_active_loop P (pre @ post) s = device_active_loop P post ?s1"
    and st: "last_data_time_ms ?s1 = L" by (simp_all add: L)
  have sil: "silence_at P ?s1 p = tick_now p * portTICK_PERIOD_MS P - L" for p
    by (simp add: silence_at_def st)
  from watchdog_quiet_run[of post P ?s1, unfolded sil, OF q start step late]
  show ?thesis unfolding app by auto
qed

text \<open>
  C8. The claim fails when a callback falls between the two reads of the check. The
  device is opened at tick 100 on a 1 kHz tick; the task reads tick 1100 for the check;
  \<open>handle_rx\<close> then runs at tick 1101 with a line of data; the task reads the timestamp
  1101 and computes \<open>1100 - 1101\<close> in unsigned 32-bit arithmetic. The session is ended by
  the watchdog, with a silence of 4294967295 ms reported, although data has just
  arrived and the timeout has not elapsed.
\<close>

theorem C8_watchdog_race:
  "fst (usb_session esp32s3 100
          [\<lparr> rx_during = [(1101, [0x4F, 0x32, 0x0D, 0x0A])], sem_taken = False, tick_now = 1100 \<rparr>]
          (main_init esp32s3)) = WatchdogExpired 4294967295"
  by (simp add: usb_session_def Let_def handle_rx_stamp DATA_TIMEOUT_MS_def)
     (simp add: esp32s3_def)

section \<open>The line framer\<close>

lemma takeWhile_update_stop:
  assumes "i < length xs" and "\<forall>x\<in>set (take i xs). P x" and "\<not> P z"
  shows "takeWhile P (xs[i := z]) = take i xs"
proof -
  have "xs[i := z] = take i xs @ z # drop (Suc i) xs"
    using assms(1) by (rule upd_conv_take_nth_drop)
  then show ?thesis using assms(2,3) by simp
qed

lemma line_events_append: "line_events (xs @ ys) = line_events xs @ line_events ys"
  by (induction xs rule: line_events.induct) simp_all

text \<open>A terminator: the line printed is the pending text, and the buffer is empty after.\<close>

lemma rx_byte_terminator:
  assumes ok: "line_buffer_ok s" and c: "c = 10 \<or> c = 13"
  shows "line_buffer_ok (fst (rx_byte P s c))"
    and "line_events (snd (rx_byte P s c)) = (if pending s \<noteq> [] then [pending s] else [])"
    and "pending (fst (rx_byte P s c)) = []"
proof -
  let ?n = "line_buffer_pos s"
  from ok have len: "length (line_buffer s) = 256" and n: "?n \<le> 255"
    and nz: "\<forall>x\<in>set (take ?n (line_buffer s)). x \<noteq> 0"
    by (auto simp: line_buffer_ok_def pending_def)
  have cs: "cstr ((line_buffer s)[?n := 0]) = take ?n (line_buffer s)"
    unfolding cstr_def using len n nz by (intro takeWhile_update_stop) auto
  have pe: "pending s \<noteq> [] \<longleftrightarrow> ?n > 0"
    using len n by (auto simp: pending_def)
  show "line_buffer_ok (fst (rx_byte P s c))"
    using ok c by (auto simp: rx_byte_def Let_def line_buffer_ok_def pending_def)
  show "line_events (snd (rx_byte P s c)) = (if pending s \<noteq> [] then [pending s] else [])"
    using c pe cs by (auto simp: rx_byte_def Let_def line_events_append pending_def)
  show "pending (fst (rx_byte P s c)) = []"
    using c pe by (auto simp: rx_byte_def Let_def pending_def)
qed

text \<open>A printable byte: stored at the position while the position is below 255.\<close>

lemma rx_byte_printable:
  assumes ok: "line_buffer_ok s" and c: "32 \<le> c" "c \<le> 126"
  shows "line_buffer_ok (fst (rx_byte P s c))"
    and "line_events (snd (rx_byte P s c)) = []"
    and "pending (fst (rx_byte P s c)) =
           (if length (pending s) < 255 then pending s @ [c] else pending s)"
proof -
  let ?n = "line_buffer_pos s"
  from ok have len: "length (line_buffer s) = 256" and n: "?n \<le> 255"
    and nz: "0 \<notin> set (take ?n (line_buffer s))"
    by (auto simp: line_buffer_ok_def pending_def)
  from c have c1: "c \<noteq> 10" "c \<noteq> 13" "c < 127" "c \<noteq> 0"
    by (auto simp: word_le_nat_alt word_less_nat_alt)
  have lp: "length (pending s) = ?n" using len n by (simp add: pending_def)
  have app: "?n < 255 \<Longrightarrow>
      take (Suc ?n) ((line_buffer s)[?n := c]) = take ?n (line_buffer s) @ [c]"
    using len by (simp add: take_Suc_conv_app_nth)
  show "line_buffer_ok (fst (rx_byte P s c))"
    using ok c c1 app nz len by (auto simp: rx_byte_def line_buffer_ok_def pending_def)
  show "line_events (snd (rx_byte P s c)) = []"
    using c c1 by (auto simp: rx_byte_def)
  show "pending (fst (rx_byte P s c)) =
          (if length (pending s) < 255 then pending s @ [c] else pending s)"
    using c c1 app lp by (auto simp: rx_byte_def pending_def)
qed

lemma rx_byte_other:
  assumes "c \<noteq> 10" "c \<noteq> 13" "\<not> (32 \<le> c \<and> c \<le> 126)"
  shows "rx_byte P s c = (s, [])"
proof -
  have "\<not> (32 \<le> c \<and> c < 127)"
    using assms(3) by (auto simp: word_le_nat_alt word_less_nat_alt)
  then show ?thesis using assms by (auto simp: rx_byte_def)
qed

lemma handle_rx_loop_refines:
  "line_buffer_ok s \<Longrightarrow>
   line_buffer_ok (fst (handle_rx_loop P s data)) \<and>
   (line_events (snd (handle_rx_loop P s data)), pending (fst (handle_rx_loop P s data)))
   = spec_framer (pending s) data"
proof (induction data arbitrary: s)
  case Nil
  then show ?case by simp
next
  case (Cons c cs)
  obtain s1 e1 where r: "rx_byte P s c = (s1, e1)" by (cases "rx_byte P s c")
  show ?case
  proof (cases "c = 10 \<or> c = 13")
    case True
    from rx_byte_terminator[OF Cons.prems True, of P] r
    have ok1: "line_buffer_ok s1"
      and ev: "line_events e1 = (if pending s \<noteq> [] then [pending s] else [])"
      and p1: "pending s1 = []" by simp_all
    from Cons.IH[OF ok1] True ev p1 r show ?thesis
      by (auto simp: line_events_append split: prod.splits)
  next
    case nt: False
    show ?thesis
    proof (cases "32 \<le> c \<and> c \<le> 126")
      case True
      then have c: "32 \<le> c" "c \<le> 126" by simp_all
      from rx_byte_printable[OF Cons.prems c, of P] r
      have ok1: "line_buffer_ok s1" and ev: "line_events e1 = []"
        and p1: "pending s1 = (if length (pending s) < 255 then pending s @ [c] else pending s)"
        by simp_all
      from Cons.IH[OF ok1] nt True ev p1 r show ?thesis
        by (auto simp: line_events_append split: prod.splits)
    next
      case False
      with nt have "rx_byte P s c = (s, [])" by (intro rx_byte_other) auto
      with Cons.IH[OF Cons.prems] nt False show ?thesis
        by (auto split: prod.splits)
    qed
  qed
qed

lemma line_buffer_ok_init: "line_buffer_ok (main_init P)"
  by (simp add: line_buffer_ok_def main_init_def pending_def)

lemma pending_init: "pending (main_init P) = []"
  by (simp add: main_init_def pending_def)

text \<open>
  C4. From any state in which the buffer invariant holds (it holds at start-up and
  \<open>handle_rx\<close> keeps it), \<open>handle_rx\<close> on any byte sequence emits the line events and
  leaves the pending text that the framer of the specification gives: printable bytes
  are appended up to 255 characters and dropped beyond, a CR or LF with text pending
  emits that text once and empties the buffer, a CR or LF with nothing pending emits
  nothing, other bytes are ignored. From start-up,
  \<^verbatim>\<open>"AA\nBB\r\nC"\<close> gives the lines \<^verbatim>\<open>"AA"\<close> and \<^verbatim>\<open>"BB"\<close> and leaves \<^verbatim>\<open>"C"\<close> pending.
\<close>

theorem C4_line_framer:
  assumes "line_buffer_ok s"
  shows "line_buffer_ok (fst (handle_rx P s now data)) \<and>
         (line_events (snd (handle_rx P s now data)), pending (fst (handle_rx P s now data)))
           = spec_framer (pending s) data \<and>
         (line_events (snd (handle_rx P (main_init P) now
              [0x41, 0x41, 0x0A, 0x42, 0x42, 0x0D, 0x0A, 0x43])),
          pending (fst (handle_rx P (main_init P) now
              [0x41, 0x41, 0x0A, 0x42, 0x42, 0x0D, 0x0A, 0x43])))
           = ([[0x41, 0x41], [0x42, 0x42]], [0x43])"
proof -
  let ?t = "\<lambda>s::main_globals. s\<lparr>last_data_time_ms := now * portTICK_PERIOD_MS P\<rparr>"
  have keep: "line_buffer_ok (?t s') = line_buffer_ok s'" "pending (?t s') = pending s'" for s'
    by (simp_all add: line_buffer_ok_def pending_def)
  have gen: "line_buffer_ok s' \<Longrightarrow>
      line_buffer_ok (fst (handle_rx P s' now d)) \<and>
      (line_events (snd (handle_rx P s' now d)), pending (fst (handle_rx P s' now d)))
        = spec_framer (pending s') d" for s' d
    using handle_rx_loop_refines[of "?t s'" P d] by (simp add: handle_rx_def keep)
  have ex: "spec_framer [] [0x41, 0x41, 0x0A, 0x42, 0x42, 0x0D, 0x0A, 0x43]
      = ([[0x41, 0x41], [0x42, 0x42]], [0x43])"
    by simp
  show ?thesis
    using gen[OF assms, of data] gen[OF line_buffer_ok_init, of P
        "[0x41, 0x41, 0x0A, 0x42, 0x42, 0x0D, 0x0A, 0x43]"] ex
    by (simp add: pending_init)
qed

theorem C4_line_framer_witness:
  "line_buffer_ok (main_init esp32s3) \<and>
   line_events (snd (handle_rx esp32s3 (main_init esp32s3) 7 [0x4F, 0x32, 0x0D, 0x0A, 0x07, 0x48]))
     = [[0x4F, 0x32]] \<and>
   pending (fst (handle_rx esp32s3 (main_init esp32s3) 7 [0x4F, 0x32, 0x0D, 0x0A, 0x07, 0x48]))
     = [0x48]"
proof -
  have ok: "line_buffer_ok (main_init esp32s3)" by (rule line_buffer_ok_init)
  have sf: "spec_framer [] [0x4F, 0x32, 0x0D, 0x0A, 0x07, 0x48] = ([[0x4F, 0x32]], [0x48])"
    by simp
  show ?thesis
    using ok C4_line_framer[OF ok, of esp32s3 7 "[0x4F, 0x32, 0x0D, 0x0A, 0x07, 0x48]"] sf
    by (simp add: pending_init)
qed

end
